theory Spec2Isabelle
  imports Complex_Main
begin

section \<open>Errors and effects\<close>

text \<open>
  Every exception the modelled Python can raise is a value. A computation that draws
  from the process-wide pseudo-random source takes the generator state and returns
  either an error or a result with the new state.
\<close>

datatype py_error =
    ValueError | KeyError | IndexError | TypeError | AttributeError | FileNotFoundError
  | OverflowError | DateParseError | NotFittedError | HTTPException nat

type_synonym ('g, 'a) rand = "'g \<Rightarrow> py_error + ('a \<times> 'g)"

definition se_return :: "'a \<Rightarrow> ('g, 'a) rand" where
  "se_return a = (\<lambda>g. Inr (a, g))"

definition se_raise :: "py_error \<Rightarrow> ('g, 'a) rand" where
  "se_raise e = (\<lambda>g. Inl e)"

definition se_bind :: "('g, 'a) rand \<Rightarrow> ('a \<Rightarrow> ('g, 'b) rand) \<Rightarrow> ('g, 'b) rand" where
  "se_bind m f = (\<lambda>g. case m g of Inl e \<Rightarrow> Inl e | Inr (a, g') \<Rightarrow> f a g')"

definition se_lift :: "py_error + 'a \<Rightarrow> ('g, 'a) rand" where
  "se_lift r = (\<lambda>g. case r of Inl e \<Rightarrow> Inl e | Inr a \<Rightarrow> Inr (a, g))"

text \<open>A list comprehension whose element expression can raise: the first error ends it.\<close>

fun map_err :: "('a \<Rightarrow> py_error + 'b) \<Rightarrow> 'a list \<Rightarrow> py_error + 'b list" where
  "map_err f [] = Inr []"
| "map_err f (x # xs) =
     (case f x of
        Inl e \<Rightarrow> Inl e
      | Inr y \<Rightarrow> (case map_err f xs of Inl e \<Rightarrow> Inl e | Inr ys \<Rightarrow> Inr (y # ys)))"

section \<open>The standard library's random module\<close>

text \<open>
  The repository calls \<^verbatim>\<open>random.seed\<close>, \<^verbatim>\<open>random.choice\<close>, \<^verbatim>\<open>random.randint\<close> and
  \<^verbatim>\<open>random.uniform\<close>. The generator behind them is a parameter: how a seed becomes a
  state, how an index below \<open>n\<close> is drawn and how a float of the unit interval is drawn.
  The three library functions are written over it as the library defines them:
  \<^verbatim>\<open>choice(seq)\<close> is \<^verbatim>\<open>seq[_randbelow(len(seq))]\<close> and raises IndexError on an empty
  sequence, \<^verbatim>\<open>randint(a, b)\<close> is \<^verbatim>\<open>a + _randbelow(b - a + 1)\<close> and raises ValueError on an
  empty range, \<^verbatim>\<open>uniform(a, b)\<close> is \<^verbatim>\<open>a + (b - a) * random()\<close>. Floats are modelled as
  reals.
\<close>

record 'g random_source =
  rs_seed :: "int \<Rightarrow> 'g"
  rs_randbelow :: "nat \<Rightarrow> 'g \<Rightarrow> nat \<times> 'g"
  rs_random :: "'g \<Rightarrow> real \<times> 'g"

definition rng_ok :: "'g random_source \<Rightarrow> bool" where
  "rng_ok R = ((\<forall>n g. 0 < n \<longrightarrow> fst (rs_randbelow R n g) < n) \<and>
               (\<forall>g. 0 \<le> fst (rs_random R g) \<and> fst (rs_random R g) < 1))"

definition choice :: "'g random_source \<Rightarrow> 'a list \<Rightarrow> ('g, 'a) rand" where
  "choice R seq = (\<lambda>g.
     if seq = [] then Inl IndexError
     else (let (i, g') = rs_randbelow R (length seq) g
           in if i < length seq then Inr (seq ! i, g') else Inl IndexError))"

definition randint :: "'g random_source \<Rightarrow> int \<Rightarrow> int \<Rightarrow> ('g, int) rand" where
  "randint R a b = (\<lambda>g.
     if b < a then Inl ValueError
     else (let (i, g') = rs_randbelow R (nat (b - a + 1)) g in Inr (a + int i, g')))"

definition uniform :: "'g random_source \<Rightarrow> real \<Rightarrow> real \<Rightarrow> ('g, real) rand" where
  "uniform R a b = (\<lambda>g. let (u, g') = rs_random R g in Inr (a + (b - a) * u, g'))"

text \<open>
  A small linear congruential generator, used wherever a statement is evaluated at a
  concrete generator.
\<close>

definition lcg_next :: "nat \<Rightarrow> nat" where
  "lcg_next g = (13 * g + 7) mod 64"

definition lcg :: "nat random_source" where
  "lcg = \<lparr> rs_seed = (\<lambda>a. nat \<bar>a\<bar>),
           rs_randbelow = (\<lambda>n g. (g mod n, lcg_next g)),
           rs_random = (\<lambda>g. (real (g mod 8) / 8, lcg_next g)) \<rparr>"

section \<open>settings.py\<close>

record AmountSpec =
  low :: real
  high :: real
  sign :: int

text \<open>\<^verbatim>\<open>AmountSpec.__post_init__\<close>: a spec with \<open>low > high\<close> cannot be constructed.\<close>

definition AmountSpec_init :: "real \<Rightarrow> real \<Rightarrow> int \<Rightarrow> py_error + AmountSpec" where
  "AmountSpec_init l h s =
     (if l > h then Inl ValueError else Inr \<lparr> low = l, high = h, sign = s \<rparr>)"

record datetime =
  dt_year :: int
  dt_month :: int
  dt_day :: int
  dt_hour :: int
  dt_minute :: int
  dt_second :: int

record TimeSettings =
  base_date :: datetime
  hour_choices :: "(string \<times> int list) list"
  default_hour_range :: "int \<times> int"
  day_offset_range :: "int \<times> int"

record VocabEntry =
  merchants :: "string list"
  desc :: "string list"

text \<open>
  The top-level container. Mappings are association lists read with \<open>map_of\<close>. The
  classifier hyperparameters (\<^verbatim>\<open>ModelSettings\<close>) configure scikit-learn only and are left
  out. The one merchant name outside ASCII, \<^verbatim>\<open>Caffe Nero\<close> with a grave accent, is
  written as its UTF-8 bytes.
\<close>

record Settings =
  categories :: "string list"
  vocab :: "(string \<times> VocabEntry) list"
  amounts :: "(string \<times> AmountSpec) list"
  default_amount :: AmountSpec
  default_ndigits :: int
  time :: TimeSettings
  seed :: int

definition SETTINGS :: Settings where
  "SETTINGS = \<lparr>
     categories =
       [''Groceries'', ''Transport'', ''Dining & Coffee'', ''Entertainment'',
        ''Bills & Utilities'', ''Health & Fitness'', ''Shopping'', ''Income'', ''Other''],
     vocab =
       [(''Groceries'',
           \<lparr> merchants = [''Tesco'', ''Sainsbury'' @ [CHR 0x27] @ ''s'', ''ALDI'', ''LIDL'', ''ASDA'',
                          ''Co-op'', ''Morrisons''],
             desc = [''groceries'', ''weekly shop'', ''food basket'', ''fresh produce''] \<rparr>),
        (''Transport'',
           \<lparr> merchants = [''Uber'', ''Bolt'', ''ScotRail'', ''TFL'', ''Shell'', ''BP'', ''Stagecoach''],
             desc = [''ride home'', ''bus ticket'', ''train to work'', ''petrol'', ''diesel''] \<rparr>),
        (''Dining & Coffee'',
           \<lparr> merchants = [''Starbucks'', ''Costa'', ''Caff'' @ [CHR 0xC3, CHR 0xA8] @ '' Nero'',
                          ''KFC'', ''McDonalds'', ''Dominos''],
             desc = [''morning latte'', ''burger meal'', ''pizza deal'', ''americano'', ''lunch''] \<rparr>),
        (''Entertainment'',
           \<lparr> merchants = [''Netflix'', ''Spotify'', ''Steam'', ''Cineworld'', ''Disney+''],
             desc = [''subscription'', ''movie ticket'', ''monthly sub'', ''premium plan''] \<rparr>),
        (''Bills & Utilities'',
           \<lparr> merchants = [''Vodafone'', ''O2'', ''EE'', ''BT'', ''British Gas'', ''Octopus Energy''],
             desc = [''mobile bill'', ''broadband'', ''energy bill'', ''council tax''] \<rparr>),
        (''Health & Fitness'',
           \<lparr> merchants = [''Boots'', ''NHS'', ''PureGym'', ''The Gym Group'', ''Holland & Barrett''],
             desc = [''pharmacy'', ''gym membership'', ''vitamins'', ''healthcare''] \<rparr>),
        (''Shopping'',
           \<lparr> merchants = [''Amazon'', ''eBay'', ''Argos'', ''Currys'', ''Primark'', ''IKEA''],
             desc = [''online order'', ''charger'', ''home goods'', ''t-shirt'', ''accessories''] \<rparr>),
        (''Income'',
           \<lparr> merchants = [''Payroll'', ''ACME LTD'', ''Company Ltd'', ''Employer Ltd'', ''HSBC''],
             desc = [''monthly salary'', ''PAYROLL BACS CREDIT'', ''wage'', ''payslip''] \<rparr>),
        (''Other'',
           \<lparr> merchants = [''Local Market'', ''HSBC'', ''Barclays'', ''NatWest'', ''Halifax'', ''Monzo''],
             desc = [''card payment'', ''transfer'', ''fee'', ''charge'', ''misc purchase''] \<rparr>)],
     amounts =
       [(''Groceries'', \<lparr> low = 8, high = 120, sign = -1 \<rparr>),
        (''Transport'', \<lparr> low = 3, high = 70, sign = -1 \<rparr>),
        (''Dining & Coffee'', \<lparr> low = 2, high = 30, sign = -1 \<rparr>),
        (''Entertainment'', \<lparr> low = 4, high = 20, sign = -1 \<rparr>),
        (''Bills & Utilities'', \<lparr> low = 20, high = 500, sign = -1 \<rparr>),
        (''Health & Fitness'', \<lparr> low = 3, high = 120, sign = -1 \<rparr>),
        (''Shopping'', \<lparr> low = 5, high = 500, sign = -1 \<rparr>),
        (''Income'', \<lparr> low = 800, high = 2500, sign = 1 \<rparr>)],
     default_amount = \<lparr> low = 1, high = 80, sign = -1 \<rparr>,
     default_ndigits = 2,
     time = \<lparr>
       base_date = \<lparr> dt_year = 2025, dt_month = 8, dt_day = 15,
                     dt_hour = 0, dt_minute = 0, dt_second = 0 \<rparr>,
       hour_choices =
         [(''Transport'', [7, 8, 9, 22, 23, 0, 1]),
          (''Dining & Coffee'', [8, 12, 13, 18, 19]),
          (''Entertainment'', [19, 20, 21, 22])],
       default_hour_range = (8, 21),
       day_offset_range = (0, 13) \<rparr>,
     seed = 42 \<rparr>"

section \<open>The standard library's datetime\<close>

text \<open>
  Dates are the proleptic Gregorian calendar, counted in days from 1970-01-01.
  \<open>weekday\<close> is Monday = 0 ... Sunday = 6. Adding a \<^verbatim>\<open>timedelta(days, hours)\<close> carries
  hours into days; a \<^verbatim>\<open>timedelta\<close> beyond 999999999 days and a result outside the years
  1..9999 raise OverflowError. \<^verbatim>\<open>isoformat(timespec="seconds")\<close> of a naive datetime is
  \<^verbatim>\<open>YYYY-MM-DDTHH:MM:SS\<close>.
\<close>

definition days_from_civil :: "int \<Rightarrow> int \<Rightarrow> int \<Rightarrow> int" where
  "days_from_civil y m d =
     (let y' = (if m \<le> 2 then y - 1 else y);
          era = y' div 400;
          yoe = y' - era * 400;
          mp = (m + 9) mod 12;
          doy = (153 * mp + 2) div 5 + d - 1;
          doe = yoe * 365 + yoe div 4 - yoe div 100 + doy
      in era * 146097 + doe - 719468)"

definition civil_from_days :: "int \<Rightarrow> int \<times> int \<times> int" where
  "civil_from_days z0 =
     (let z = z0 + 719468;
          era = z div 146097;
          doe = z - era * 146097;
          yoe = (doe - doe div 1460 + doe div 36524 - doe div 146096) div 365;
          y = yoe + era * 400;
          doy = doe - (365 * yoe + yoe div 4 - yoe div 100);
          mp = (5 * doy + 2) div 153;
          d = doy - (153 * mp + 2) div 5 + 1;
          m = (if mp < 10 then mp + 3 else mp - 9)
      in (if m \<le> 2 then y + 1 else y, m, d))"

definition weekday :: "datetime \<Rightarrow> int" where
  "weekday t = (days_from_civil (dt_year t) (dt_month t) (dt_day t) + 3) mod 7"

definition datetime_add :: "datetime \<Rightarrow> int \<Rightarrow> int \<Rightarrow> py_error + datetime" where
  "datetime_add t days hours =
     (if \<bar>days + hours div 24\<bar> > 999999999 then Inl OverflowError
      else
        (let total = (days_from_civil (dt_year t) (dt_month t) (dt_day t) + days) * 86400
                     + (dt_hour t + hours) * 3600 + dt_minute t * 60 + dt_second t;
             (y, m, d) = civil_from_days (total div 86400);
             s = total mod 86400
         in if y < 1 \<or> 9999 < y then Inl OverflowError
            else Inr \<lparr> dt_year = y, dt_month = m, dt_day = d,
                       dt_hour = s div 3600, dt_minute = (s mod 3600) div 60,
                       dt_second = s mod 60 \<rparr>))"

definition digit_char :: "nat \<Rightarrow> char" where
  "digit_char d = char_of (48 + d)"

fun str_nat :: "nat \<Rightarrow> string" where
  "str_nat n = (if n < 10 then [digit_char n] else str_nat (n div 10) @ [digit_char (n mod 10)])"

declare str_nat.simps [simp del]

definition zfill :: "nat \<Rightarrow> string \<Rightarrow> string" where
  "zfill w s = replicate (w - length s) (CHR ''0'') @ s"

definition isoformat :: "datetime \<Rightarrow> string" where
  "isoformat t =
     zfill 4 (str_nat (nat (dt_year t))) @ ''-'' @ zfill 2 (str_nat (nat (dt_month t))) @ ''-''
     @ zfill 2 (str_nat (nat (dt_day t))) @ ''T'' @ zfill 2 (str_nat (nat (dt_hour t))) @ '':''
     @ zfill 2 (str_nat (nat (dt_minute t))) @ '':'' @ zfill 2 (str_nat (nat (dt_second t)))"

section \<open>utils/date_and_time.py\<close>

text \<open>
  \<^verbatim>\<open>choose_random_hour\<close> is overloaded on its first argument: a sequence of candidate
  hours (\<open>Inl\<close>) when \<open>end_inclusive\<close> is None, the start of a range (\<open>Inr\<close>) otherwise.
  \<^verbatim>\<open>list(...)\<close> of an integer and \<^verbatim>\<open>int(...)\<close> of a list raise TypeError.
\<close>

definition choose_random_hour ::
  "'g random_source \<Rightarrow> int list + int \<Rightarrow> int option \<Rightarrow> ('g, int) rand" where
  "choose_random_hour R hours_or_start end_inclusive =
     se_bind
       (case end_inclusive of
          None \<Rightarrow>
            (case hours_or_start of
               Inr _ \<Rightarrow> se_raise TypeError
             | Inl candidates \<Rightarrow>
                 if candidates = [] then se_raise ValueError else choice R candidates)
        | Some end_incl \<Rightarrow>
            (case hours_or_start of
               Inl _ \<Rightarrow> se_raise TypeError
             | Inr start0 \<Rightarrow>
                 (let (start, end') = (if start0 > end_incl then (end_incl, start0)
                                       else (start0, end_incl))
                  in randint R start end')))
       (\<lambda>hour. if \<not> (0 \<le> hour \<and> hour \<le> 23) then se_raise ValueError else se_return hour)"

definition choose_random_day :: "'g random_source \<Rightarrow> int \<Rightarrow> int \<Rightarrow> ('g, int) rand" where
  "choose_random_day R start_day_offset_inclusive end_day_offset_inclusive =
     (let (start, end') =
            (if start_day_offset_inclusive > end_day_offset_inclusive
             then (end_day_offset_inclusive, start_day_offset_inclusive)
             else (start_day_offset_inclusive, end_day_offset_inclusive))
      in randint R start end')"

definition use_date_offset :: "datetime \<Rightarrow> int \<Rightarrow> int \<Rightarrow> py_error + datetime" where
  "use_date_offset start_datetime days_offset hours_offset =
     datetime_add start_datetime days_offset hours_offset"

text \<open>
  \<^verbatim>\<open>rand_time\<close> in two steps, as its body has them: the choice of the hour
  (\<open>rand_time_hour\<close>: the per-category list when the category has one, the default range
  otherwise), then the day offset, the sum and the rendering.
\<close>

definition rand_time_hour :: "'g random_source \<Rightarrow> string \<Rightarrow> ('g, int) rand" where
  "rand_time_hour R category =
     (let time_settings = time SETTINGS in
      case map_of (hour_choices time_settings) category of
        Some hours \<Rightarrow> choose_random_hour R (Inl hours) None
      | None \<Rightarrow>
          (let (start_hour, end_hour) = default_hour_range time_settings
           in choose_random_hour R (Inr start_hour) (Some end_hour)))"

definition rand_time :: "'g random_source \<Rightarrow> string \<Rightarrow> ('g, string) rand" where
  "rand_time R category =
     (let time_settings = time SETTINGS in
      se_bind (rand_time_hour R category) (\<lambda>selected_hour.
      se_bind (choose_random_day R (fst (day_offset_range time_settings))
                                   (snd (day_offset_range time_settings))) (\<lambda>selected_day_offset.
      se_bind (se_lift (use_date_offset (base_date time_settings) selected_day_offset selected_hour))
        (\<lambda>timestamp_datetime. se_return (isoformat timestamp_datetime)))))"

section \<open>utils/amount.py\<close>

text \<open>
  \<^verbatim>\<open>round(x, ndigits)\<close> of a float, on reals: the nearest multiple of \<open>10 ^ -ndigits\<close>,
  a tie going to the even one.
\<close>

definition round_half_even :: "real \<Rightarrow> int" where
  "round_half_even y =
     (let f = \<lfloor>y\<rfloor>; d = y - of_int f
      in if d < 1 / 2 then f else if d > 1 / 2 then f + 1 else if even f then f else f + 1)"

definition py_round :: "real \<Rightarrow> nat \<Rightarrow> real" where
  "py_round x ndigits = of_int (round_half_even (x * 10 ^ ndigits)) / 10 ^ ndigits"

definition choose_random_amount ::
  "'g random_source \<Rightarrow> real \<Rightarrow> real \<Rightarrow> int option \<Rightarrow> int \<Rightarrow> ('g, real) rand" where
  "choose_random_amount R lower_bound upper_bound decimal_places sgn_mult =
     (let decimal_places' =
            (case decimal_places of None \<Rightarrow> default_ndigits SETTINGS | Some d \<Rightarrow> d)
      in if decimal_places' < 0 then se_raise ValueError
         else
           (let (lo, hi) = (if lower_bound > upper_bound then (upper_bound, lower_bound)
                            else (lower_bound, upper_bound))
            in se_bind (uniform R lo hi) (\<lambda>sampled_value.
                 se_return (py_round (of_int sgn_mult * sampled_value) (nat decimal_places')))))"

definition get_amount_spec :: "string \<Rightarrow> AmountSpec" where
  "get_amount_spec category =
     (case map_of (amounts SETTINGS) category of
        Some spec \<Rightarrow> spec
      | None \<Rightarrow> default_amount SETTINGS)"

definition rand_amount :: "'g random_source \<Rightarrow> string \<Rightarrow> int option \<Rightarrow> ('g, real) rand" where
  "rand_amount R category decimal_places =
     (let spec = get_amount_spec category
      in choose_random_amount R (low spec) (high spec) decimal_places (sign spec))"

text \<open>
  The bounds of an amount spec in sign-adjusted order: \<open>low .. high\<close> for sign 1,
  \<open>-high .. -low\<close> for sign -1.
\<close>

definition in_signed_bounds :: "AmountSpec \<Rightarrow> real \<Rightarrow> bool" where
  "in_signed_bounds spec v =
     (if sign spec = 1 then low spec \<le> v \<and> v \<le> high spec
      else - high spec \<le> v \<and> v \<le> - low spec)"

section \<open>ml/data.py\<close>

text \<open>
  A raw transaction row of the data frame. A text cell that is missing is \<open>None\<close>; the
  generator fills every cell.
\<close>

record raw_row =
  date :: string
  merchant :: "string option"
  description :: "string option"
  amount :: real
  label :: string

text \<open>
  One pass of the loop of \<^verbatim>\<open>synthesize_rows_for_category\<close>: merchant, description,
  timestamp, amount, drawn in this order.
\<close>

definition synthesize_row ::
  "'g random_source \<Rightarrow> string \<Rightarrow> string list \<Rightarrow> string list \<Rightarrow> ('g, raw_row) rand" where
  "synthesize_row R category merchants' descriptions =
     se_bind (choice R merchants') (\<lambda>merchant'.
     se_bind (choice R descriptions) (\<lambda>description'.
     se_bind (rand_time R category) (\<lambda>date'.
     se_bind (rand_amount R category None) (\<lambda>amount'.
       se_return \<lparr> date = date', merchant = Some merchant', description = Some description',
                   amount = amount', label = category \<rparr>))))"

primrec rows_loop ::
  "'g random_source \<Rightarrow> string \<Rightarrow> string list \<Rightarrow> string list \<Rightarrow> nat \<Rightarrow> raw_row list
     \<Rightarrow> ('g, raw_row list) rand" where
  "rows_loop R category merchants' descriptions 0 rows = se_return rows"
| "rows_loop R category merchants' descriptions (Suc n) rows =
     se_bind (synthesize_row R category merchants' descriptions) (\<lambda>row.
       rows_loop R category merchants' descriptions n (rows @ [row]))"

definition synthesize_rows_for_category ::
  "'g random_source \<Rightarrow> string \<Rightarrow> int \<Rightarrow> (string \<times> VocabEntry) list \<Rightarrow> ('g, raw_row list) rand" where
  "synthesize_rows_for_category R category rows_count vocab' =
     (case map_of vocab' category of
        None \<Rightarrow> se_raise KeyError
      | Some entry \<Rightarrow> rows_loop R category (merchants entry) (desc entry) (nat rows_count) [])"

primrec categories_loop ::
  "'g random_source \<Rightarrow> int \<Rightarrow> (string \<times> int) list \<Rightarrow> (string \<times> VocabEntry) list
     \<Rightarrow> string list \<Rightarrow> raw_row list \<Rightarrow> ('g, raw_row list) rand" where
  "categories_loop R default_samples overrides vocab' [] rows = se_return rows"
| "categories_loop R default_samples overrides vocab' (category # rest) rows =
     (let n = (case map_of overrides category of Some m \<Rightarrow> m | None \<Rightarrow> default_samples)
      in se_bind (synthesize_rows_for_category R category n vocab') (\<lambda>new_rows.
           categories_loop R default_samples overrides vocab' rest (rows @ new_rows)))"

definition edge_rows :: "'g random_source \<Rightarrow> ('g, raw_row list) rand" where
  "edge_rows R =
     se_bind (rand_time R ''Income'') (\<lambda>d1.
     se_bind (rand_time R ''Entertainment'') (\<lambda>d2.
     se_bind (rand_time R ''Transport'') (\<lambda>d3.
     se_bind (rand_time R ''Other'') (\<lambda>d4.
       se_return
         [\<lparr> date = d1, merchant = Some ''HSBC'', description = Some ''PAYROLL BACS CREDIT'',
             amount = - 1350, label = ''Income'' \<rparr>,
          \<lparr> date = d2, merchant = Some ''STREAMIO'', description = Some ''monthly subscription'',
             amount = 899 / 100, label = ''Entertainment'' \<rparr>,
          \<lparr> date = d3, merchant = Some ''QuickRide'', description = Some ''late night ride'',
             amount = 112 / 10, label = ''Transport'' \<rparr>,
          \<lparr> date = d4, merchant = Some ''HSBC'', description = Some ''card payment'',
             amount = 2499 / 100, label = ''Other'' \<rparr>]))))"

text \<open>
  \<^verbatim>\<open>synthesize_dataset\<close>: the generator state \<open>g\<close> is whatever earlier draws left behind;
  a seed that is not None replaces it before the first draw.
\<close>

definition synthesize_dataset ::
  "'g random_source \<Rightarrow> int \<Rightarrow> (string \<times> int) list option \<Rightarrow> int option \<Rightarrow> ('g, raw_row list) rand" where
  "synthesize_dataset R default_samples_per_category per_category_overrides seed' =
     (\<lambda>g.
       (let g0 = (case seed' of None \<Rightarrow> g | Some s \<Rightarrow> rs_seed R s);
            overrides = (case per_category_overrides of None \<Rightarrow> [] | Some ov \<Rightarrow> ov)
        in se_bind
             (categories_loop R default_samples_per_category overrides (vocab SETTINGS)
                (categories SETTINGS) [])
             (\<lambda>rows. se_bind (edge_rows R) (\<lambda>extra. se_return (rows @ extra)))
             g0))"

section \<open>pandas.to_datetime and str.lower\<close>

text \<open>
  \<^verbatim>\<open>pd.to_datetime\<close> is pandas' (version 2) and a parameter of the model, given by the four
  things it does with strings when no format is passed. It looks for the first element
  that is not null (\<open>is_null\<close>: the empty string and the null-like strings), guesses a
  format from that one element (\<open>guess_format\<close>) and parses every element with the
  guessed format (\<open>strptime\<close>); an element that does not match raises ValueError. When
  no format can be guessed, each element is parsed on its own (\<open>dateutil\<close>), and one
  that cannot be parsed raises DateParseError. A null element becomes \<^verbatim>\<open>NaT\<close>. With
  \<^verbatim>\<open>errors="coerce"\<close> an element that would raise becomes \<^verbatim>\<open>NaT\<close> instead. A scalar is
  converted as the one-element array that holds it. \<open>lower\<close>, the other parameter of the
  feature code, is \<^verbatim>\<open>str.lower\<close>.
\<close>

datatype parsed = Instant datetime | NaT

datatype errors_mode = Raise | Coerce

record 'f pandas =
  is_null :: "string \<Rightarrow> bool"
  guess_format :: "string \<Rightarrow> 'f option"
  strptime :: "'f \<Rightarrow> string \<Rightarrow> datetime option"
  dateutil :: "string \<Rightarrow> datetime option"

definition first_non_null :: "'f pandas \<Rightarrow> string list \<Rightarrow> string option" where
  "first_non_null pd arr =
     (case filter (\<lambda>s. \<not> is_null pd s) arr of [] \<Rightarrow> None | s # _ \<Rightarrow> Some s)"

definition convert_element ::
  "'f pandas \<Rightarrow> (string \<Rightarrow> datetime option) \<Rightarrow> py_error \<Rightarrow> errors_mode \<Rightarrow> string
     \<Rightarrow> py_error + parsed" where
  "convert_element pd parse err errors s =
     (if is_null pd s then Inr NaT
      else (case parse s of
              Some t \<Rightarrow> Inr (Instant t)
            | None \<Rightarrow> (case errors of Raise \<Rightarrow> Inl err | Coerce \<Rightarrow> Inr NaT)))"

definition to_datetime :: "'f pandas \<Rightarrow> errors_mode \<Rightarrow> string list \<Rightarrow> py_error + parsed list" where
  "to_datetime pd errors arr =
     (case (case first_non_null pd arr of None \<Rightarrow> None | Some s \<Rightarrow> guess_format pd s) of
        Some fmt \<Rightarrow> map_err (convert_element pd (strptime pd fmt) ValueError errors) arr
      | None \<Rightarrow> map_err (convert_element pd (dateutil pd) DateParseError errors) arr)"

definition to_datetime_scalar :: "'f pandas \<Rightarrow> errors_mode \<Rightarrow> string \<Rightarrow> py_error + parsed" where
  "to_datetime_scalar pd errors s =
     (case to_datetime pd errors [s] of
        Inl e \<Rightarrow> Inl e
      | Inr [] \<Rightarrow> Inl IndexError
      | Inr (r # _) \<Rightarrow> Inr r)"

text \<open>
  A reference instance, used where a statement is evaluated at concrete strings. It knows
  two formats, the seconds-precision \<^verbatim>\<open>YYYY-MM-DDTHH:MM:SS\<close> that \<^verbatim>\<open>rand_time\<close> renders and
  the default timestamp has, and the date \<^verbatim>\<open>YYYY-MM-DD\<close>; pandas knows more, and no
  example below uses a string on which the two differ. \<open>lower_ascii\<close> lower-cases the
  ASCII letters.
\<close>

definition digit_val :: "char \<Rightarrow> nat option" where
  "digit_val c = (let n = (of_char c :: nat) in if 48 \<le> n \<and> n \<le> 57 then Some (n - 48) else None)"

fun digits_val :: "nat \<Rightarrow> string \<Rightarrow> nat option" where
  "digits_val acc [] = Some acc"
| "digits_val acc (c # cs) =
     (case digit_val c of None \<Rightarrow> None | Some d \<Rightarrow> digits_val (10 * acc + d) cs)"

definition days_in_month :: "int \<Rightarrow> int \<Rightarrow> int" where
  "days_in_month y m =
     (if m = 2 then (if y mod 400 = 0 then 29 else if y mod 100 = 0 then 28
                     else if y mod 4 = 0 then 29 else 28)
      else if m \<in> {4, 6, 9, 11} then 30 else 31)"

definition parse_iso_date :: "string \<Rightarrow> datetime option" where
  "parse_iso_date s =
     (if length s = 10 \<and> s ! 4 = CHR ''-'' \<and> s ! 7 = CHR ''-''
      then (case (digits_val 0 (take 4 s), digits_val 0 (take 2 (drop 5 s)),
                  digits_val 0 (take 2 (drop 8 s))) of
              (Some y, Some m, Some d) \<Rightarrow>
                if 1 \<le> y \<and> 1 \<le> m \<and> m \<le> 12 \<and> 1 \<le> d \<and> int d \<le> days_in_month (int y) (int m)
                then Some \<lparr> dt_year = int y, dt_month = int m, dt_day = int d,
                            dt_hour = 0, dt_minute = 0, dt_second = 0 \<rparr>
                else None
            | _ \<Rightarrow> None)
      else None)"

definition parse_iso_seconds :: "string \<Rightarrow> datetime option" where
  "parse_iso_seconds s =
     (if length s = 19 \<and> s ! 10 = CHR ''T'' \<and> s ! 13 = CHR '':'' \<and> s ! 16 = CHR '':''
      then (case (parse_iso_date (take 10 s), digits_val 0 (take 2 (drop 11 s)),
                  digits_val 0 (take 2 (drop 14 s)), digits_val 0 (take 2 (drop 17 s))) of
              (Some d, Some hh, Some mm, Some ss) \<Rightarrow>
                if hh < 24 \<and> mm < 60 \<and> ss < 60
                then Some (d \<lparr> dt_hour := int hh, dt_minute := int mm, dt_second := int ss \<rparr>)
                else None
            | _ \<Rightarrow> None)
      else None)"

datatype ref_format = IsoSeconds | IsoDate

definition ref_parse :: "string \<Rightarrow> datetime option" where
  "ref_parse s = (case parse_iso_seconds s of Some t \<Rightarrow> Some t | None \<Rightarrow> parse_iso_date s)"

definition ref_pandas :: "ref_format pandas" where
  "ref_pandas =
     \<lparr> is_null = (\<lambda>s. s \<in> set [[], ''NaT'', ''nat'', ''NAT'', ''nan'', ''NaN'', ''NAN'']),
       guess_format = (\<lambda>s. if parse_iso_seconds s \<noteq> None then Some IsoSeconds
                            else if parse_iso_date s \<noteq> None then Some IsoDate else None),
       strptime = (\<lambda>fmt s. case fmt of IsoSeconds \<Rightarrow> parse_iso_seconds s
                                       | IsoDate \<Rightarrow> parse_iso_date s),
       dateutil = ref_parse \<rparr>"

definition lower_ascii :: "string \<Rightarrow> string" where
  "lower_ascii s =
     map (\<lambda>c. let n = (of_char c :: nat) in if 65 \<le> n \<and> n \<le> 90 then char_of (n + 32) else c) s"

section \<open>Feature derivation on the serving path: predict.py and app/main.py\<close>

text \<open>
  A numeric cell of a data frame is \<open>Some\<close> integer or \<open>None\<close> for NaN. Both modules
  define \<^verbatim>\<open>DEFAULT_ISO_DATETIME\<close> as the same literal.
\<close>

record time_features =
  hour :: "int option"
  day_of_week :: "int option"
  is_weekend :: int

record FeatureRecord =
  combined_text :: string
  merchant_text :: string
  amount :: real
  hour :: "int option"
  day_of_week :: "int option"
  is_weekend :: int

definition DEFAULT_ISO_DATETIME :: string where
  "DEFAULT_ISO_DATETIME = ''2025-08-24T09:00:00''"

text \<open>
  \<^verbatim>\<open>add_time_features\<close> of predict.py: the timestamp is converted with
  \<^verbatim>\<open>errors="coerce"\<close>, the default, in its place when it came out null, with the default
  \<^verbatim>\<open>errors="raise"\<close>. \<^verbatim>\<open>int(ts.dayofweek)\<close> of \<^verbatim>\<open>NaT\<close> is \<^verbatim>\<open>int(nan)\<close>, a ValueError: it can
  only happen if the default itself is null.
\<close>

definition add_time_features :: "'f pandas \<Rightarrow> string \<Rightarrow> py_error + time_features" where
  "add_time_features pd iso_datetime =
     (case to_datetime_scalar pd Coerce iso_datetime of
        Inl e \<Rightarrow> Inl e
      | Inr ts0 \<Rightarrow>
          (case (if ts0 = NaT then to_datetime_scalar pd Raise DEFAULT_ISO_DATETIME else Inr ts0) of
             Inl e \<Rightarrow> Inl e
           | Inr NaT \<Rightarrow> Inl ValueError
           | Inr (Instant ts) \<Rightarrow>
               (let day_of_week' = weekday ts
                in Inr \<lparr> time_features.hour = Some (dt_hour ts),
                         time_features.day_of_week = Some day_of_week',
                         time_features.is_weekend = (if day_of_week' \<ge> 5 then 1 else 0) \<rparr>)))"

definition build_feature_row ::
  "(string \<Rightarrow> string) \<Rightarrow> 'f pandas \<Rightarrow> string \<Rightarrow> string \<Rightarrow> real \<Rightarrow> string
     \<Rightarrow> py_error + FeatureRecord list" where
  "build_feature_row lower pd merchant' description' amount' iso_datetime =
     (case add_time_features pd iso_datetime of
        Inl e \<Rightarrow> Inl e
      | Inr t \<Rightarrow>
          Inr [\<lparr> combined_text = lower (merchant' @ '' '' @ description'),
                 merchant_text = lower merchant',
                 amount = amount',
                 hour = time_features.hour t,
                 day_of_week = time_features.day_of_week t,
                 is_weekend = time_features.is_weekend t \<rparr>])"

text \<open>\<^verbatim>\<open>_add_time_features\<close> and \<^verbatim>\<open>_build_feature_row\<close> of app/main.py.\<close>

definition app_add_time_features :: "'f pandas \<Rightarrow> string \<Rightarrow> py_error + time_features" where
  "app_add_time_features pd iso_datetime =
     (case to_datetime_scalar pd Coerce iso_datetime of
        Inl e \<Rightarrow> Inl e
      | Inr ts0 \<Rightarrow>
          (case (if ts0 = NaT then to_datetime_scalar pd Raise DEFAULT_ISO_DATETIME else Inr ts0) of
             Inl e \<Rightarrow> Inl e
           | Inr NaT \<Rightarrow> Inl ValueError
           | Inr (Instant ts) \<Rightarrow>
               (let day_of_week' = weekday ts
                in Inr \<lparr> time_features.hour = Some (dt_hour ts),
                         time_features.day_of_week = Some day_of_week',
                         time_features.is_weekend = (if day_of_week' \<ge> 5 then 1 else 0) \<rparr>)))"

definition app_build_feature_row ::
  "(string \<Rightarrow> string) \<Rightarrow> 'f pandas \<Rightarrow> string \<Rightarrow> string \<Rightarrow> real \<Rightarrow> string
     \<Rightarrow> py_error + FeatureRecord list" where
  "app_build_feature_row lower pd merchant' description' amount' iso_datetime =
     (case app_add_time_features pd iso_datetime of
        Inl e \<Rightarrow> Inl e
      | Inr t \<Rightarrow>
          Inr [\<lparr> combined_text = lower (merchant' @ '' '' @ description'),
                 merchant_text = lower merchant',
                 amount = amount',
                 hour = time_features.hour t,
                 day_of_week = time_features.day_of_week t,
                 is_weekend = time_features.is_weekend t \<rparr>])"

section \<open>Feature derivation on the training path: ml/features.py\<close>

text \<open>
  A data frame is the list of its rows. \<^verbatim>\<open>extract_time_features\<close> converts the whole column
  in one call, with the default \<^verbatim>\<open>errors="raise"\<close>; a \<^verbatim>\<open>NaT\<close> row gets NaN for hour and day
  of week, and \<^verbatim>\<open>(NaN >= 5).astype(int)\<close> is 0.
\<close>

definition extract_time_features :: "'f pandas \<Rightarrow> string list \<Rightarrow> py_error + time_features list" where
  "extract_time_features pd datetime_series =
     (case to_datetime pd Raise datetime_series of
        Inl e \<Rightarrow> Inl e
      | Inr dt \<Rightarrow>
          Inr (map (\<lambda>p. case p of
                      Instant ts \<Rightarrow>
                        \<lparr> time_features.hour = Some (dt_hour ts),
                          time_features.day_of_week = Some (weekday ts),
                          time_features.is_weekend = (if weekday ts \<ge> 5 then 1 else 0) \<rparr>
                    | NaT \<Rightarrow>
                        \<lparr> time_features.hour = None, time_features.day_of_week = None,
                          time_features.is_weekend = 0 \<rparr>) dt))"

definition fillna :: "string option \<Rightarrow> string" where
  "fillna cell = (case cell of None \<Rightarrow> [] | Some s \<Rightarrow> s)"

definition build_feature_dataframe ::
  "'f pandas \<Rightarrow> raw_row list \<Rightarrow> py_error + (raw_row \<times> time_features) list" where
  "build_feature_dataframe pd df =
     (case extract_time_features pd (map date df) of
        Inl e \<Rightarrow> Inl e
      | Inr time_df \<Rightarrow> Inr (zip df time_df))"

definition add_text_features ::
  "(string \<Rightarrow> string) \<Rightarrow> (raw_row \<times> time_features) list
     \<Rightarrow> (raw_row \<times> time_features \<times> string \<times> string) list" where
  "add_text_features lower df =
     map (\<lambda>(r, t). (r, t,
            lower (fillna (merchant r) @ '' '' @ fillna (description r)),
            lower (fillna (merchant r)))) df"

definition get_feature_matrix_and_labels ::
  "(raw_row \<times> time_features \<times> string \<times> string) list \<Rightarrow> FeatureRecord list \<times> string list" where
  "get_feature_matrix_and_labels df =
     (map (\<lambda>(r, t, combined, merchant_only).
             \<lparr> combined_text = combined, merchant_text = merchant_only,
               amount = raw_row.amount r,
               hour = time_features.hour t,
               day_of_week = time_features.day_of_week t,
               is_weekend = time_features.is_weekend t \<rparr>) df,
      map (\<lambda>(r, t, combined, merchant_only). label r) df)"

text \<open>Step 2 of \<^verbatim>\<open>train.main\<close>: the three calls in the order the script makes them.\<close>

definition train_features ::
  "(string \<Rightarrow> string) \<Rightarrow> 'f pandas \<Rightarrow> raw_row list
     \<Rightarrow> py_error + (FeatureRecord list \<times> string list)" where
  "train_features lower pd raw_df =
     (case build_feature_dataframe pd raw_df of
        Inl e \<Rightarrow> Inl e
      | Inr df_with_time \<Rightarrow>
          Inr (get_feature_matrix_and_labels (add_text_features lower df_with_time)))"

section \<open>Model objects and the artifact file: ml/io.py, predict.py, app/main.py\<close>

text \<open>
  The loaders inspect the unpickled object with \<^verbatim>\<open>hasattr\<close> and \<^verbatim>\<open>isinstance\<close>, so an
  object is modelled by what they can see of it: a dictionary, a list of labels, or a
  model whose optional attributes are \<open>None\<close> when absent. \<open>named_steps\<close> lists the
  named steps of a pipeline, \<open>clf_classes\<close> is the \<^verbatim>\<open>classes_\<close> attribute of a step and
  \<open>own_classes\<close> a \<^verbatim>\<open>classes_\<close> attribute of the object itself. \<^verbatim>\<open>pickle.dump\<close> followed by \<^verbatim>\<open>pickle.load\<close> returns the object that was written:
  the file store maps a path to the object stored there.
\<close>

record estimator =
  clf_classes :: "string list option"

record model_obj =
  named_steps :: "(string \<times> estimator) list option"
  own_classes :: "string list option"
  predict_proba :: "(FeatureRecord list \<Rightarrow> py_error + real list list) option"
  predict :: "FeatureRecord list \<Rightarrow> py_error + string list"

datatype pyval = PDict "(string \<times> pyval) list" | PModel model_obj | PLabels "string list"

type_synonym file_store = "string \<Rightarrow> pyval option"

definition save_artifacts :: "pyval \<Rightarrow> string list \<Rightarrow> string \<Rightarrow> file_store \<Rightarrow> file_store" where
  "save_artifacts pipeline labels model_path fs =
     fs(model_path \<mapsto> PDict [(''pipeline'', pipeline), (''labels'', PLabels labels)])"

definition load_pipeline :: "string \<Rightarrow> file_store \<Rightarrow> py_error + pyval" where
  "load_pipeline model_path fs =
     (case fs model_path of
        None \<Rightarrow> Inl FileNotFoundError
      | Some payload \<Rightarrow>
          Inr (case payload of
                 PDict d \<Rightarrow> (case map_of d ''pipeline'' of Some p \<Rightarrow> p | None \<Rightarrow> payload)
               | _ \<Rightarrow> payload))"

definition get_class_names :: "pyval \<Rightarrow> string list option" where
  "get_class_names pipeline =
     (case pipeline of
        PModel m \<Rightarrow>
          (case named_steps m of
             Some steps \<Rightarrow>
               (case map_of steps ''classifier'' of
                  Some clf \<Rightarrow> (case clf_classes clf of Some cs \<Rightarrow> Some cs | None \<Rightarrow> None)
                | None \<Rightarrow> None)
           | None \<Rightarrow> None)
      | _ \<Rightarrow> None)"

text \<open>
  \<^verbatim>\<open>load_model\<close> of app/main.py sets the two module globals; it differs from the pair
  \<^verbatim>\<open>load_pipeline\<close>, \<^verbatim>\<open>get_class_names\<close> only in its \<^verbatim>\<open>elif\<close>.
\<close>

definition load_model :: "string \<Rightarrow> file_store \<Rightarrow> py_error + (pyval \<times> string list option)" where
  "load_model model_path fs =
     (case fs model_path of
        None \<Rightarrow> Inl FileNotFoundError
      | Some payload \<Rightarrow>
          (let pipeline = (case payload of
                             PDict d \<Rightarrow> (case map_of d ''pipeline'' of Some p \<Rightarrow> p | None \<Rightarrow> payload)
                           | _ \<Rightarrow> payload);
               class_names =
                 (case pipeline of
                    PModel m \<Rightarrow>
                      (case (case named_steps m of Some steps \<Rightarrow> map_of steps ''classifier''
                             | None \<Rightarrow> None) of
                         Some clf \<Rightarrow> (case clf_classes clf of Some cs \<Rightarrow> Some cs | None \<Rightarrow> None)
                       | None \<Rightarrow> own_classes m)
                  | _ \<Rightarrow> None)
           in Inr (pipeline, class_names)))"

section \<open>Ranking: the probability branch of predict.main and of the /predict route\<close>

text \<open>
  \<^verbatim>\<open>proba.argsort()\<close> is numpy's: a parameter. All that is asked of it at a probability
  vector is \<open>argsort_ok\<close>: it returns a permutation of the indices that sorts the
  vector in ascending order. The order it gives to equal entries is left open, as
  numpy's default sort leaves it; \<open>stable_argsort\<close> is the instance that keeps equal
  entries in index order. \<^verbatim>\<open>order[:k]\<close> is Python's slice, which for a negative \<open>k\<close>
  drops from the end. \<^verbatim>\<open>str(i)\<close> of an index is its decimal string.
\<close>

definition argsort_ok :: "(real list \<Rightarrow> nat list) \<Rightarrow> real list \<Rightarrow> bool" where
  "argsort_ok argsort proba =
     (sort (argsort proba) = [0..<length proba] \<and> sorted (map (\<lambda>i. proba ! i) (argsort proba)))"

definition stable_argsort :: "real list \<Rightarrow> nat list" where
  "stable_argsort proba = sort_key (\<lambda>i. proba ! i) [0..<length proba]"

definition slice_to :: "'a list \<Rightarrow> int \<Rightarrow> 'a list" where
  "slice_to xs k = (if 0 \<le> k then take (nat k) xs else take (nat (int (length xs) + k)) xs)"

text \<open>
  The block both entry points share, word for word: the order, the clamp of \<open>k\<close>, and
  one item per index (\<open>topk_item\<close>, the element expression of the list comprehension),
  with the class name when a non-empty name list is there and the decimal index
  otherwise.
\<close>

definition topk_item :: "string list option \<Rightarrow> real list \<Rightarrow> nat \<Rightarrow> py_error + (string \<times> real)" where
  "topk_item class_names proba i =
     (case (case class_names of
              Some names \<Rightarrow>
                if names \<noteq> []
                then (if i < length names then Inr (names ! i) else Inl IndexError)
                else Inr (str_nat i)
            | None \<Rightarrow> Inr (str_nat i)) of
        Inl e \<Rightarrow> Inl e
      | Inr category \<Rightarrow>
          if i < length proba then Inr (category, proba ! i) else Inl IndexError)"

definition topk_items ::
  "(real list \<Rightarrow> nat list) \<Rightarrow> string list option \<Rightarrow> real list \<Rightarrow> int
     \<Rightarrow> py_error + (string \<times> real) list" where
  "topk_items argsort class_names proba k_requested =
     (let order = rev (argsort proba);
          k = min k_requested (int (length proba))
      in map_err (topk_item class_names proba) (slice_to order k))"

text \<open>The category an item carries for index \<open>i\<close> when the index is in range.\<close>

definition name_of :: "string list option \<Rightarrow> nat \<Rightarrow> string" where
  "name_of class_names i =
     (case class_names of
        Some names \<Rightarrow> if names \<noteq> [] then names ! i else str_nat i
      | None \<Rightarrow> str_nat i)"

datatype result =
    Ranked "string \<times> string \<times> real \<times> string" "string \<times> real" "(string \<times> real) list"
  | Plain "string \<times> string \<times> real \<times> string" string

text \<open>
  \<^verbatim>\<open>main\<close> of predict.py, with the parsed command line as arguments. An object
  without \<^verbatim>\<open>predict_proba\<close> that is not a model has no \<^verbatim>\<open>predict\<close> either.
\<close>

definition predict_main ::
  "(real list \<Rightarrow> nat list) \<Rightarrow> (string \<Rightarrow> string) \<Rightarrow> 'f pandas \<Rightarrow> file_store
     \<Rightarrow> string \<Rightarrow> string \<Rightarrow> real \<Rightarrow> string \<Rightarrow> int \<Rightarrow> string \<Rightarrow> py_error + result" where
  "predict_main argsort lower pd fs merchant' description' amount' iso_datetime
       k_requested model_path =
     (case load_pipeline model_path fs of
        Inl e \<Rightarrow> Inl e
      | Inr pipeline \<Rightarrow>
          (let class_names = get_class_names pipeline in
           case build_feature_row lower pd merchant' description' amount' iso_datetime of
             Inl e \<Rightarrow> Inl e
           | Inr features_row \<Rightarrow>
               (case pipeline of
                  PModel m \<Rightarrow>
                    (case predict_proba m of
                       Some pp \<Rightarrow>
                         (case pp features_row of
                            Inl e \<Rightarrow> Inl e
                          | Inr [] \<Rightarrow> Inl IndexError
                          | Inr (proba # _) \<Rightarrow>
                              (case topk_items argsort class_names proba k_requested of
                                 Inl e \<Rightarrow> Inl e
                               | Inr [] \<Rightarrow> Inl IndexError
                               | Inr (top1 # rest) \<Rightarrow>
                                   Inr (Ranked (merchant', description', amount', iso_datetime)
                                          top1 (top1 # rest))))
                     | None \<Rightarrow>
                         (case predict m features_row of
                            Inl e \<Rightarrow> Inl e
                          | Inr [] \<Rightarrow> Inl IndexError
                          | Inr (pred # _) \<Rightarrow>
                              Inr (Plain (merchant', description', amount', iso_datetime) pred)))
                | _ \<Rightarrow> Inl AttributeError)))"

text \<open>
  The \<^verbatim>\<open>/predict\<close> route. The request is the validated \<^verbatim>\<open>PredictRequest\<close>: merchant,
  description, amount, timestamp and \<open>topk\<close>, which the schema bounds by 1 and 20. The
  two globals are arguments. Only NotFittedError is caught, and only inside the
  \<^verbatim>\<open>try\<close>, which the feature row is built before.
\<close>

type_synonym PredictRequest = "string \<times> string \<times> real \<times> string \<times> int"

record PredictResponse =
  resp_input :: PredictRequest
  resp_top1 :: "(string \<times> real) option"
  resp_topk :: "(string \<times> real) list option"
  resp_prediction :: "string option"

definition app_predict ::
  "(real list \<Rightarrow> nat list) \<Rightarrow> (string \<Rightarrow> string) \<Rightarrow> 'f pandas
     \<Rightarrow> pyval option \<Rightarrow> string list option \<Rightarrow> PredictRequest \<Rightarrow> py_error + PredictResponse" where
  "app_predict argsort lower pd pipeline_global class_names_global req =
     (case pipeline_global of
        None \<Rightarrow> Inl (HTTPException 500)
      | Some pipeline \<Rightarrow>
          (case req of (merchant', description', amount', iso_datetime, k_requested) \<Rightarrow>
           case app_build_feature_row lower pd merchant' description' amount' iso_datetime of
             Inl e \<Rightarrow> Inl e
           | Inr X \<Rightarrow>
               (case (case pipeline of
                        PModel m \<Rightarrow>
                          (case predict_proba m of
                             Some pp \<Rightarrow>
                               (case pp X of
                                  Inl e \<Rightarrow> Inl e
                                | Inr [] \<Rightarrow> Inl IndexError
                                | Inr (proba # _) \<Rightarrow>
                                    (case topk_items argsort class_names_global proba k_requested of
                                       Inl e \<Rightarrow> Inl e
                                     | Inr [] \<Rightarrow> Inl IndexError
                                     | Inr (item # rest) \<Rightarrow>
                                         Inr \<lparr> resp_input = req, resp_top1 = Some item,
                                               resp_topk = Some (item # rest),
                                               resp_prediction = None \<rparr>))
                           | None \<Rightarrow>
                               (case predict m X of
                                  Inl e \<Rightarrow> Inl e
                                | Inr [] \<Rightarrow> Inl IndexError
                                | Inr (lbl # _) \<Rightarrow>
                                    Inr \<lparr> resp_input = req, resp_top1 = None, resp_topk = None,
                                          resp_prediction = Some lbl \<rparr>))
                      | _ \<Rightarrow> Inl AttributeError) of
                  Inl NotFittedError \<Rightarrow> Inl (HTTPException 503)
                | r \<Rightarrow> r)))"

text \<open>
  Two model objects for the examples: a pipeline whose final step \<^verbatim>\<open>classifier\<close> carries the
  given class names, and a bare object that has \<^verbatim>\<open>predict_proba\<close> and nothing to read class
  names from. Both answer every row with the given probability vector.
\<close>

definition demo_model :: "string list \<Rightarrow> real list \<Rightarrow> model_obj" where
  "demo_model names proba =
     \<lparr> named_steps = Some [(''preprocessor'', \<lparr> clf_classes = None \<rparr>),
                           (''classifier'', \<lparr> clf_classes = Some names \<rparr>)],
       own_classes = Some names,
       predict_proba = Some (\<lambda>X. Inr (map (\<lambda>row. proba) X)),
       predict = (\<lambda>X. Inr (map (\<lambda>row. names ! 0) X)) \<rparr>"

definition demo_bare :: "real list \<Rightarrow> model_obj" where
  "demo_bare proba =
     \<lparr> named_steps = None,
       own_classes = None,
       predict_proba = Some (\<lambda>X. Inr (map (\<lambda>row. proba) X)),
       predict = (\<lambda>X. Inr (map (\<lambda>row. ''0'') X)) \<rparr>"

text \<open>The class order of a classifier fitted on the catalog's labels: sorted, as numpy sorts.\<close>

definition fitted_classes :: "string list" where
  "fitted_classes =
     [''Bills & Utilities'', ''Dining & Coffee'', ''Entertainment'', ''Groceries'',
      ''Health & Fitness'', ''Income'', ''Other'', ''Shopping'', ''Transport'']"

definition demo_proba :: "real list" where
  "demo_proba = [2 / 100, 5 / 100, 3 / 100, 60 / 100, 4 / 100, 1 / 100, 10 / 100, 8 / 100, 7 / 100]"

section \<open>Facts about the generator\<close>

lemma lcg_ok: "rng_ok lcg"
  by (simp add: rng_ok_def lcg_def)

lemma choice_ok:
  assumes "rng_ok R" "xs \<noteq> []"
  shows "\<exists>x g'. choice R xs g = Inr (x, g') \<and> x \<in> set xs"
proof -
  obtain i g' where d: "rs_randbelow R (length xs) g = (i, g')" by (cases "rs_randbelow R (length xs) g")
  from assms have "fst (rs_randbelow R (length xs) g) < length xs" by (simp add: rng_ok_def)
  with d have "i < length xs" by simp
  with d assms(2) show ?thesis by (simp add: choice_def)
qed

lemma randint_ok:
  assumes "rng_ok R" "a \<le> b"
  shows "\<exists>i g'. randint R a b g = Inr (i, g') \<and> a \<le> i \<and> i \<le> b"
proof -
  obtain k g' where d: "rs_randbelow R (nat (b - a + 1)) g = (k, g')"
    by (cases "rs_randbelow R (nat (b - a + 1)) g")
  from assms have "fst (rs_randbelow R (nat (b - a + 1)) g) < nat (b - a + 1)" by (simp add: rng_ok_def)
  with d have "k < nat (b - a + 1)" by simp
  with d assms(2) show ?thesis by (simp add: randint_def)
qed

lemma rand_time_hour_ok:
  assumes "rng_ok R"
  shows "\<exists>h g'. rand_time_hour R category g = Inr (h, g') \<and> 0 \<le> h \<and> h \<le> 23 \<and>
           (\<forall>hours. map_of (hour_choices (time SETTINGS)) category = Some hours \<longrightarrow> h \<in> set hours)"
proof (cases "map_of (hour_choices (time SETTINGS)) category")
  case None
  have "(8::int) \<le> 21" by simp
  from randint_ok [OF assms this, of g] obtain i g' where
    r: "randint R 8 21 g = Inr (i, g')" "8 \<le> i" "i \<le> 21" by blast
  with None show ?thesis
    by (simp add: rand_time_hour_def choose_random_hour_def se_bind_def se_return_def se_raise_def
        SETTINGS_def)
next
  case (Some hours)
  then have hs: "hours \<noteq> []" "\<forall>x \<in> set hours. 0 \<le> x \<and> x \<le> 23"
    by (auto simp: SETTINGS_def split: if_splits)
  from choice_ok [OF assms hs(1), of g] obtain x g' where
    c: "choice R hours g = Inr (x, g')" "x \<in> set hours" by blast
  with Some hs show ?thesis
    by (simp add: rand_time_hour_def choose_random_hour_def se_bind_def se_return_def se_raise_def)
qed


lemma choose_random_day_ok:
  assumes "rng_ok R"
  shows "\<exists>d g'. choose_random_day R 0 13 g = Inr (d, g') \<and> 0 \<le> d \<and> d \<le> 13"
proof -
  have "(0::int) \<le> 13" by simp
  from randint_ok [OF assms this, of g] show ?thesis
    by (simp add: choose_random_day_def)
qed

lemma hour_carry: "0 \<le> h \<Longrightarrow> h \<le> 23 \<Longrightarrow>
    (D * 86400 + h * 3600) div 86400 = (D::int) \<and> (D * 86400 + h * 3600) mod 86400 = h * 3600"
  by auto

lemma datetime_add_midnight:
  assumes t: "dt_hour t = 0" "dt_minute t = 0" "dt_second t = 0"
    and h: "0 \<le> h" "h \<le> 23"
    and d: "\<bar>days\<bar> \<le> 999999998"
    and c: "civil_from_days (days_from_civil (dt_year t) (dt_month t) (dt_day t) + days) = (y, m, dd)"
    and y: "1 \<le> y" "y \<le> 9999"
  shows "datetime_add t days h = Inr \<lparr> dt_year = y, dt_month = m, dt_day = dd,
           dt_hour = h, dt_minute = 0, dt_second = 0 \<rparr>"
proof -
  define N where "N = days_from_civil (dt_year t) (dt_month t) (dt_day t) + days"
  define total where "total = N * 86400 + (dt_hour t + h) * 3600 + dt_minute t * 60 + dt_second t"
  have tot: "total = N * 86400 + h * 3600" by (simp add: total_def t)
  have q: "total div 86400 = N" and r: "total mod 86400 = h * 3600"
    using hour_carry [OF h, of N] by (simp_all add: tot)
  have h24: "h div 24 = 0" using h by simp
  have ov: "\<not> \<bar>days + h div 24\<bar> > 999999999" using d by (simp add: h24)
  have s1: "(h * 3600) div 3600 = h" "(h * 3600) mod 3600 div 60 = 0" "(h * 3600) mod 60 = 0"
    by simp_all
  from y have yy: "\<not> (y < 1 \<or> 9999 < y)" by simp
  show ?thesis
    unfolding datetime_add_def Let_def N_def [symmetric] total_def [symmetric]
    using c unfolding N_def [symmetric]
    by (simp only: ov if_False q r s1 yy split_conv)
qed

lemma base_days: "days_from_civil 2025 8 15 = 20315"
  by code_simp

lemma civil_all: "\<forall>d \<in> set [0..13]. civil_from_days (20315 + d) = (2025, 8, 15 + d)"
  by code_simp

lemma civil_aug:
  assumes "0 \<le> d" "d \<le> 13"
  shows "civil_from_days (20315 + d) = (2025, 8, 15 + d)"
proof -
  from assms have "d \<in> set [0..13]" by (simp only: set_upto atLeastAtMost_iff)
  with civil_all show ?thesis by blast
qed

lemma use_date_offset_ok:
  assumes "0 \<le> d" "d \<le> 13" "0 \<le> h" "h \<le> 23"
  shows "\<exists>t. use_date_offset (base_date (time SETTINGS)) d h = Inr t \<and> dt_hour t = h"
proof -
  let ?b = "base_date (time SETTINGS)"
  have b: "dt_year ?b = 2025" "dt_month ?b = 8" "dt_day ?b = 15"
    "dt_hour ?b = 0" "dt_minute ?b = 0" "dt_second ?b = 0"
    by (simp_all add: SETTINGS_def)
  have c: "civil_from_days (days_from_civil (dt_year ?b) (dt_month ?b) (dt_day ?b) + d) = (2025, 8, 15 + d)"
    by (simp only: b base_days civil_aug [OF assms(1,2)])
  have "\<bar>d\<bar> \<le> 999999998" using assms by simp
  from datetime_add_midnight [OF b(4,5,6) assms(3,4) this c]
  show ?thesis by (simp add: use_date_offset_def)
qed

lemma rand_time_result:
  assumes "rng_ok R"
  shows "\<exists>h g1 t g2. rand_time_hour R category g = Inr (h, g1) \<and> 0 \<le> h \<and> h \<le> 23 \<and>
           (\<forall>hours. map_of (hour_choices (time SETTINGS)) category = Some hours \<longrightarrow> h \<in> set hours) \<and>
           rand_time R category g = Inr (isoformat t, g2) \<and> dt_hour t = h"
proof -
  from rand_time_hour_ok [OF assms] obtain h g1 where
    h: "rand_time_hour R category g = Inr (h, g1)" "0 \<le> h" "h \<le> 23"
      "\<forall>hours. map_of (hour_choices (time SETTINGS)) category = Some hours \<longrightarrow> h \<in> set hours"
    by blast
  from choose_random_day_ok [OF assms, of g1] obtain d g2 where
    d: "choose_random_day R 0 13 g1 = Inr (d, g2)" "0 \<le> d" "d \<le> 13" by blast
  from use_date_offset_ok [OF d(2,3) h(2,3)] obtain t where
    t: "use_date_offset (base_date (time SETTINGS)) d h = Inr t" "dt_hour t = h" by blast
  have r: "day_offset_range (time SETTINGS) = (0, 13)" by (simp add: SETTINGS_def)
  have "rand_time R category g = Inr (isoformat t, g2)"
    using h(1) d(1) t(1)
    by (simp add: rand_time_def se_bind_def se_lift_def se_return_def r Let_def)
  with h t(2) show ?thesis by blast
qed

lemma rand_time_ok:
  assumes "rng_ok R"
  shows "\<exists>s g'. rand_time R category g = Inr (s, g')"
  using rand_time_result [OF assms, of category g] by blast

lemma default_ndigits_SETTINGS: "default_ndigits SETTINGS = 2"
  by (simp add: SETTINGS_def)

lemma choose_random_amount_default_ok:
  "\<exists>a g'. choose_random_amount R lo hi None s g = Inr (a, g')"
  by (simp add: choose_random_amount_def default_ndigits_SETTINGS uniform_def se_bind_def
      se_return_def case_prod_beta Let_def)

lemma rand_amount_ok: "\<exists>a g'. rand_amount R category None g = Inr (a, g')"
  by (simp add: rand_amount_def Let_def choose_random_amount_default_ok)

lemma synthesize_row_ok:
  assumes "rng_ok R" "ms \<noteq> []" "ds \<noteq> []"
  shows "\<exists>row g'. synthesize_row R category ms ds g = Inr (row, g') \<and> label row = category"
proof -
  from choice_ok [OF assms(1,2), of g] obtain m g1 where
    m: "choice R ms g = Inr (m, g1)" by blast
  from choice_ok [OF assms(1,3), of g1] obtain d g2 where
    d: "choice R ds g1 = Inr (d, g2)" by blast
  from rand_time_ok [OF assms(1), of category g2] obtain s g3 where
    s: "rand_time R category g2 = Inr (s, g3)" by blast
  from rand_amount_ok [of R category g3] obtain a g4 where
    a: "rand_amount R category None g3 = Inr (a, g4)" by blast
  show ?thesis
    using m d s a by (simp add: synthesize_row_def se_bind_def se_return_def)
qed

lemma rows_loop_ok:
  assumes "rng_ok R" "ms \<noteq> []" "ds \<noteq> []"
  shows "\<forall>r \<in> set rows. label r = category \<Longrightarrow>
         \<exists>rows' g'. rows_loop R category ms ds n rows g = Inr (rows', g') \<and>
           (\<forall>r \<in> set rows'. label r = category)"
proof (induction n arbitrary: rows g)
  case 0
  then show ?case by (simp add: se_return_def)
next
  case (Suc n)
  from synthesize_row_ok [OF assms, of category g] obtain row g1 where
    row: "synthesize_row R category ms ds g = Inr (row, g1)" "label row = category" by blast
  from Suc.prems row(2) have "\<forall>r \<in> set (rows @ [row]). label r = category" by simp
  from Suc.IH [OF this, of g1] row(1) show ?case by (simp add: se_bind_def)
qed

lemma vocab_SETTINGS:
  assumes "category \<in> set (categories SETTINGS)"
  shows "\<exists>entry. map_of (vocab SETTINGS) category = Some entry \<and>
           merchants entry \<noteq> [] \<and> desc entry \<noteq> []"
  using assms by (auto simp: SETTINGS_def)

lemma synthesize_rows_for_category_ok:
  assumes "rng_ok R" "category \<in> set (categories SETTINGS)"
  shows "\<exists>rows g'. synthesize_rows_for_category R category n (vocab SETTINGS) g = Inr (rows, g') \<and>
           (\<forall>r \<in> set rows. label r = category)"
proof -
  from vocab_SETTINGS [OF assms(2)] obtain entry where
    e: "map_of (vocab SETTINGS) category = Some entry" "merchants entry \<noteq> []" "desc entry \<noteq> []"
    by blast
  have "\<forall>r \<in> set ([]::raw_row list). label r = category" by simp
  from rows_loop_ok [OF assms(1) e(2,3) this, of "nat n" g] e(1) show ?thesis
    by (simp add: synthesize_rows_for_category_def)
qed

lemma categories_loop_ok:
  assumes "rng_ok R"
  shows "set cs \<subseteq> set (categories SETTINGS) \<Longrightarrow>
         \<forall>r \<in> set rows. label r \<in> set (categories SETTINGS) \<Longrightarrow>
         \<exists>rows' g'. categories_loop R dflt ov (vocab SETTINGS) cs rows g = Inr (rows', g') \<and>
           (\<forall>r \<in> set rows'. label r \<in> set (categories SETTINGS))"
proof (induction cs arbitrary: rows g)
  case Nil
  then show ?case by (simp add: se_return_def)
next
  case (Cons c cs)
  define n where "n = (case map_of ov c of Some m \<Rightarrow> m | None \<Rightarrow> dflt)"
  from Cons.prems(1) have c: "c \<in> set (categories SETTINGS)" and cs: "set cs \<subseteq> set (categories SETTINGS)"
    by simp_all
  from synthesize_rows_for_category_ok [OF assms c, of n g] obtain new g1 where
    new: "synthesize_rows_for_category R c n (vocab SETTINGS) g = Inr (new, g1)"
      "\<forall>r \<in> set new. label r = c" by blast
  from Cons.prems(2) new(2) c have "\<forall>r \<in> set (rows @ new). label r \<in> set (categories SETTINGS)"
    by auto
  from Cons.IH [OF cs this, of g1] new(1) show ?case
    by (simp add: se_bind_def n_def Let_def)
qed

lemma edge_rows_ok:
  assumes "rng_ok R"
  shows "\<exists>rows g'. edge_rows R g = Inr (rows, g') \<and>
           (\<forall>r \<in> set rows. label r \<in> set (categories SETTINGS))"
proof -
  from rand_time_ok [OF assms, of "''Income''" g] obtain d1 g1 where
    1: "rand_time R ''Income'' g = Inr (d1, g1)" by blast
  from rand_time_ok [OF assms, of "''Entertainment''" g1] obtain d2 g2 where
    2: "rand_time R ''Entertainment'' g1 = Inr (d2, g2)" by blast
  from rand_time_ok [OF assms, of "''Transport''" g2] obtain d3 g3 where
    3: "rand_time R ''Transport'' g2 = Inr (d3, g3)" by blast
  from rand_time_ok [OF assms, of "''Other''" g3] obtain d4 g4 where
    4: "rand_time R ''Other'' g3 = Inr (d4, g4)" by blast
  have c: "categories SETTINGS =
       [''Groceries'', ''Transport'', ''Dining & Coffee'', ''Entertainment'',
        ''Bills & Utilities'', ''Health & Fitness'', ''Shopping'', ''Income'', ''Other'']"
    by (simp add: SETTINGS_def)
  show ?thesis using 1 2 3 4 by (simp add: edge_rows_def se_bind_def se_return_def c)
qed

lemma synthesize_dataset_ok:
  assumes "rng_ok R"
  shows "\<exists>rows g'. synthesize_dataset R n ov sd g = Inr (rows, g') \<and>
           (\<forall>r \<in> set rows. label r \<in> set (categories SETTINGS))"
proof -
  define g0 where "g0 = (case sd of None \<Rightarrow> g | Some s \<Rightarrow> rs_seed R s)"
  define ov' where "ov' = (case ov of None \<Rightarrow> [] | Some x \<Rightarrow> x)"
  have "\<forall>r \<in> set ([]::raw_row list). label r \<in> set (categories SETTINGS)" by simp
  from categories_loop_ok [OF assms subset_refl this, of n ov' g0] obtain rows g1 where
    rows: "categories_loop R n ov' (vocab SETTINGS) (categories SETTINGS) [] g0 = Inr (rows, g1)"
      "\<forall>r \<in> set rows. label r \<in> set (categories SETTINGS)" by blast
  from edge_rows_ok [OF assms, of g1] obtain extra g2 where
    extra: "edge_rows R g1 = Inr (extra, g2)"
      "\<forall>r \<in> set extra. label r \<in> set (categories SETTINGS)" by blast
  from extra(2) rows(2) have "\<forall>r \<in> set (rows @ extra). label r \<in> set (categories SETTINGS)" by auto
  with rows(1) extra(1) show ?thesis
    by (simp add: synthesize_dataset_def Let_def se_bind_def se_return_def g0_def ov'_def)
qed


section \<open>The generator claims\<close>

lemma lcg_transport_run:
  "rand_time_hour lcg ''Transport'' 5 = Inr (0, 8) \<and>
   rand_time lcg ''Transport'' 5 = Inr (''2025-08-23T00:00:00'', 47)"
  by code_simp

text \<open>
  Claim C9. With a generator that draws within its bounds, the hour \<^verbatim>\<open>rand_time\<close> chooses
  for any category is returned and not refused (the out-of-range branch is not taken),
  lies in 0..23, belongs to the category's candidate list when the time settings give
  one, and is the hour of the timestamp \<^verbatim>\<open>rand_time\<close> renders.
\<close>

theorem sampled_hour_in_range:
  assumes "rng_ok R"
  shows "\<exists>h g1 t g2. rand_time_hour R category g = Inr (h, g1) \<and> 0 \<le> h \<and> h \<le> 23 \<and>
           (\<forall>hours. map_of (hour_choices (time SETTINGS)) category = Some hours \<longrightarrow> h \<in> set hours) \<and>
           rand_time R category g = Inr (isoformat t, g2) \<and> dt_hour t = h"
  using assms by (rule rand_time_result)

theorem sampled_hour_in_range_witness:
  "rng_ok lcg \<and>
   rand_time_hour lcg ''Transport'' 5 = Inr (0, 8) \<and>
   rand_time lcg ''Transport'' 5 = Inr (''2025-08-23T00:00:00'', 47) \<and>
   (\<exists>h g1 t g2. rand_time_hour lcg ''Transport'' 5 = Inr (h, g1) \<and> 0 \<le> h \<and> h \<le> 23 \<and>
      (\<forall>hours. map_of (hour_choices (time SETTINGS)) ''Transport'' = Some hours \<longrightarrow> h \<in> set hours) \<and>
      rand_time lcg ''Transport'' 5 = Inr (isoformat t, g2) \<and> dt_hour t = h)"
  using lcg_ok lcg_transport_run sampled_hour_in_range [OF lcg_ok, of "''Transport''" 5]
  by blast

text \<open>
  Claim C6. With a generator that draws within its bounds, \<^verbatim>\<open>synthesize_dataset\<close> returns
  for every sample count, override table, seed and prior generator state, and every
  row it returns, of the per-category block and of the four appended rows alike, carries
  a label of \<^verbatim>\<open>SETTINGS.categories\<close>.
\<close>

theorem synthesize_dataset_labels_in_catalog:
  assumes "rng_ok R"
  shows "\<exists>rows g'. synthesize_dataset R n ov sd g = Inr (rows, g') \<and>
           (\<forall>r \<in> set rows. label r \<in> set (categories SETTINGS))"
  using assms by (rule synthesize_dataset_ok)

theorem synthesize_dataset_labels_in_catalog_witness:
  "rng_ok lcg \<and>
   (\<exists>rows g'. synthesize_dataset lcg 60 (Some [(''Other'', 50)]) (Some 42) 0 = Inr (rows, g') \<and>
      (\<forall>r \<in> set rows. label r \<in> set (categories SETTINGS)))"
  using lcg_ok synthesize_dataset_labels_in_catalog [OF lcg_ok, of 60 "Some [(''Other'', 50)]" "Some 42" 0]
  by blast

text \<open>
  Claim C5. Two invocations of \<^verbatim>\<open>synthesize_dataset\<close> with the same seed, sample count
  and overrides give the same result, rows and final generator state, whatever state
  the generator was in before each: the seed replaces it before the first draw. With a
  generator that draws within its bounds the result is a data set, not an error.
\<close>

theorem synthesize_dataset_deterministic:
  "synthesize_dataset R n ov (Some s) g1 = synthesize_dataset R n ov (Some s) g2 \<and>
   (rng_ok R \<longrightarrow> (\<exists>rows g'. synthesize_dataset R n ov (Some s) g1 = Inr (rows, g')))"
  using synthesize_dataset_ok [of R n ov "Some s" g1]
  by (auto simp: synthesize_dataset_def)

theorem synthesize_dataset_deterministic_witness:
  "synthesize_dataset lcg 60 (Some [(''Other'', 50)]) (Some 42) 0 =
     synthesize_dataset lcg 60 (Some [(''Other'', 50)]) (Some 42) 17 \<and>
   (\<exists>rows g'. synthesize_dataset lcg 60 (Some [(''Other'', 50)]) (Some 42) 0 = Inr (rows, g'))"
  using lcg_ok synthesize_dataset_deterministic [of lcg 60 "Some [(''Other'', 50)]" 42 0 17]
  by blast


section \<open>Facts about feature derivation\<close>

lemma app_add_time_features_eq: "app_add_time_features = add_time_features"
  by (intro ext) (simp add: app_add_time_features_def add_time_features_def)

lemma app_build_feature_row_eq: "app_build_feature_row = build_feature_row"
  by (intro ext) (simp add: app_build_feature_row_def build_feature_row_def app_add_time_features_eq)

lemma first_non_null_Cons: "\<not> is_null pd s \<Longrightarrow> first_non_null pd (s # rest) = Some s"
  by (simp add: first_non_null_def)

lemma to_datetime_first_unparseable:
  assumes "\<not> is_null pd s" "guess_format pd s = None" "dateutil pd s = None"
  shows "to_datetime pd Raise (s # rest) = Inl DateParseError"
    and "to_datetime pd Coerce [s] = Inr [NaT]"
  using assms by (simp_all add: to_datetime_def first_non_null_Cons convert_element_def)

lemma to_datetime_single_parsed:
  assumes "\<not> is_null pd s" "guess_format pd s = Some fmt" "strptime pd fmt s = Some t"
  shows "to_datetime pd errors [s] = Inr [Instant t]"
  using assms by (simp add: to_datetime_def first_non_null_Cons convert_element_def)

lemma map_err_raises:
  assumes "x \<in> set xs" "f x = Inl e" "\<forall>y \<in> set xs. \<forall>e'. f y = Inl e' \<longrightarrow> e' = e"
  shows "map_err f xs = Inl e"
  using assms
proof (induction xs)
  case Nil
  then show ?case by simp
next
  case (Cons y ys)
  show ?case
  proof (cases "f y")
    case (Inl e')
    with Cons.prems(3) have "e' = e" by simp
    with Inl show ?thesis by simp
  next
    case (Inr v)
    with Cons.prems(1,2) have "x \<in> set ys" by auto
    from Cons.IH [OF this Cons.prems(2)] Cons.prems(3) have "map_err f ys = Inl e" by simp
    with Inr show ?thesis by simp
  qed
qed

lemma to_datetime_later_mismatch:
  assumes "first_non_null pd arr = Some s0" "guess_format pd s0 = Some fmt"
    and "s \<in> set arr" "\<not> is_null pd s" "strptime pd fmt s = None"
  shows "to_datetime pd Raise arr = Inl ValueError"
proof -
  let ?f = "convert_element pd (strptime pd fmt) ValueError Raise"
  from assms(4,5) have "?f s = Inl ValueError" by (simp add: convert_element_def)
  moreover have "\<forall>y \<in> set arr. \<forall>e'. ?f y = Inl e' \<longrightarrow> e' = ValueError"
    by (auto simp: convert_element_def split: if_splits option.splits)
  ultimately have "map_err ?f arr = Inl ValueError"
    using assms(3) by (rule map_err_raises [rotated])
  with assms(1,2) show ?thesis by (simp add: to_datetime_def)
qed

lemma add_time_features_parsed:
  assumes "\<not> is_null pd s" "guess_format pd s = Some fmt" "strptime pd fmt s = Some t"
  shows "add_time_features pd s =
           Inr \<lparr> time_features.hour = Some (dt_hour t), time_features.day_of_week = Some (weekday t),
                 time_features.is_weekend = (if weekday t \<ge> 5 then 1 else 0) \<rparr>"
  using to_datetime_single_parsed [OF assms, of Coerce]
  by (simp add: add_time_features_def to_datetime_scalar_def Let_def)

lemma add_time_features_fallback:
  assumes bad: "\<not> is_null pd s" "guess_format pd s = None" "dateutil pd s = None"
    and dflt: "\<not> is_null pd DEFAULT_ISO_DATETIME" "guess_format pd DEFAULT_ISO_DATETIME = Some fmt"
      "strptime pd fmt DEFAULT_ISO_DATETIME = Some d"
  shows "add_time_features pd s =
           Inr \<lparr> time_features.hour = Some (dt_hour d), time_features.day_of_week = Some (weekday d),
                 time_features.is_weekend = (if weekday d \<ge> 5 then 1 else 0) \<rparr>"
  using to_datetime_first_unparseable(2) [OF bad] to_datetime_single_parsed [OF dflt, of Raise]
  by (simp add: add_time_features_def to_datetime_scalar_def Let_def)

lemma extract_time_features_single_parsed:
  assumes "\<not> is_null pd s" "guess_format pd s = Some fmt" "strptime pd fmt s = Some t"
  shows "extract_time_features pd [s] =
           Inr [\<lparr> time_features.hour = Some (dt_hour t), time_features.day_of_week = Some (weekday t),
                  time_features.is_weekend = (if weekday t \<ge> 5 then 1 else 0) \<rparr>]"
  using to_datetime_single_parsed [OF assms, of Raise]
  by (simp add: extract_time_features_def)

lemma extract_time_features_first_unparseable:
  assumes "\<not> is_null pd s" "guess_format pd s = None" "dateutil pd s = None"
  shows "extract_time_features pd (s # rest) = Inl DateParseError"
  using to_datetime_first_unparseable(1) [OF assms, of rest]
  by (simp add: extract_time_features_def)

lemma extract_time_features_later_mismatch:
  assumes "first_non_null pd arr = Some s0" "guess_format pd s0 = Some fmt"
    and "s \<in> set arr" "\<not> is_null pd s" "strptime pd fmt s = None"
  shows "extract_time_features pd arr = Inl ValueError"
  using to_datetime_later_mismatch [OF assms] by (simp add: extract_time_features_def)

lemma feature_identity_single_row:
  assumes "\<not> is_null pd s" "guess_format pd s = Some fmt" "strptime pd fmt s = Some t"
  shows "train_features lower pd
           [\<lparr> date = s, merchant = Some m, description = Some d, raw_row.amount = a, label = l \<rparr>] =
         Inr ([\<lparr> combined_text = lower (m @ '' '' @ d), merchant_text = lower m, amount = a,
                 hour = Some (dt_hour t), day_of_week = Some (weekday t),
                 is_weekend = (if weekday t \<ge> 5 then 1 else 0) \<rparr>], [l])"
    and "build_feature_row lower pd m d a s =
         Inr [\<lparr> combined_text = lower (m @ '' '' @ d), merchant_text = lower m, amount = a,
                hour = Some (dt_hour t), day_of_week = Some (weekday t),
                is_weekend = (if weekday t \<ge> 5 then 1 else 0) \<rparr>]"
  using extract_time_features_single_parsed [OF assms] add_time_features_parsed [OF assms]
  by (simp_all add: train_features_def build_feature_dataframe_def add_text_features_def
      get_feature_matrix_and_labels_def build_feature_row_def fillna_def)

lemma ref_pandas_facts:
  "\<not> is_null ref_pandas ''not-a-date'' \<and> guess_format ref_pandas ''not-a-date'' = None \<and>
   dateutil ref_pandas ''not-a-date'' = None \<and>
   \<not> is_null ref_pandas DEFAULT_ISO_DATETIME \<and>
   guess_format ref_pandas DEFAULT_ISO_DATETIME = Some IsoSeconds \<and>
   strptime ref_pandas IsoSeconds DEFAULT_ISO_DATETIME =
     Some \<lparr> dt_year = 2025, dt_month = 8, dt_day = 24, dt_hour = 9, dt_minute = 0, dt_second = 0 \<rparr> \<and>
   weekday \<lparr> dt_year = 2025, dt_month = 8, dt_day = 24, dt_hour = 9, dt_minute = 0, dt_second = 0 \<rparr> = 6"
  by code_simp

lemma mixed_format_column_raises:
  "extract_time_features ref_pandas [''2025-08-24'', ''2025-08-24T09:00:00''] = Inl ValueError \<and>
   extract_time_features ref_pandas [''2025-08-24T09:00:00'', ''not-a-date''] = Inl ValueError \<and>
   extract_time_features ref_pandas [''not-a-date'', ''2025-08-24T09:00:00''] = Inl DateParseError"
  by code_simp

section \<open>The feature claims\<close>

text \<open>
  Claim C1, at the input where the code departs from it. Take a timestamp pandas cannot
  parse and a default timestamp it can. The serving path (predict.py, and app/main.py
  alike) returns the feature record with the hour, day of week and weekend flag of the
  default instant; the training path, given a data frame whose first row carries the
  same merchant, description, amount and timestamp, raises and returns no record.
\<close>

theorem unparseable_timestamp_breaks_feature_identity:
  assumes bad: "\<not> is_null pd s" "guess_format pd s = None" "dateutil pd s = None"
    and dflt: "\<not> is_null pd DEFAULT_ISO_DATETIME" "guess_format pd DEFAULT_ISO_DATETIME = Some fmt"
      "strptime pd fmt DEFAULT_ISO_DATETIME = Some d"
  shows "train_features lower pd
           (\<lparr> date = s, merchant = Some m, description = Some ds, raw_row.amount = a, label = l \<rparr> # rows)
           = Inl DateParseError \<and>
         build_feature_row lower pd m ds a s =
           Inr [\<lparr> combined_text = lower (m @ '' '' @ ds), merchant_text = lower m, amount = a,
                  hour = Some (dt_hour d), day_of_week = Some (weekday d),
                  is_weekend = (if weekday d \<ge> 5 then 1 else 0) \<rparr>] \<and>
         app_build_feature_row lower pd m ds a s = build_feature_row lower pd m ds a s"
  using extract_time_features_first_unparseable [OF bad, of "map date rows"]
    add_time_features_fallback [OF bad dflt]
  by (simp add: train_features_def build_feature_dataframe_def build_feature_row_def
      app_build_feature_row_eq)

theorem unparseable_timestamp_breaks_feature_identity_witness:
  "train_features lower_ascii ref_pandas
     [\<lparr> date = ''not-a-date'', merchant = Some ''Tesco'', description = Some ''groceries'',
        raw_row.amount = 43, label = ''Groceries'' \<rparr>] = Inl DateParseError \<and>
   build_feature_row lower_ascii ref_pandas ''Tesco'' ''groceries'' 43 ''not-a-date'' =
     Inr [\<lparr> combined_text = ''tesco groceries'', merchant_text = ''tesco'', amount = 43,
            hour = Some 9, day_of_week = Some 6, is_weekend = 1 \<rparr>] \<and>
   app_build_feature_row lower_ascii ref_pandas ''Tesco'' ''groceries'' 43 ''not-a-date'' =
     build_feature_row lower_ascii ref_pandas ''Tesco'' ''groceries'' 43 ''not-a-date''"
proof -
  have l: "lower_ascii ''Tesco groceries'' = ''tesco groceries''" "lower_ascii ''Tesco'' = ''tesco''"
    by code_simp+
  from ref_pandas_facts have f:
    "\<not> is_null ref_pandas ''not-a-date''" "guess_format ref_pandas ''not-a-date'' = None"
    "dateutil ref_pandas ''not-a-date'' = None"
    "\<not> is_null ref_pandas DEFAULT_ISO_DATETIME"
    "guess_format ref_pandas DEFAULT_ISO_DATETIME = Some IsoSeconds"
    "strptime ref_pandas IsoSeconds DEFAULT_ISO_DATETIME =
       Some \<lparr> dt_year = 2025, dt_month = 8, dt_day = 24, dt_hour = 9, dt_minute = 0, dt_second = 0 \<rparr>"
    and w: "weekday \<lparr> dt_year = 2025, dt_month = 8, dt_day = 24, dt_hour = 9, dt_minute = 0, dt_second = 0 \<rparr> = 6"
    by blast+
  from unparseable_timestamp_breaks_feature_identity [OF f, of lower_ascii "''Tesco''" "''groceries''" 43
      "''Groceries''" "[]"]
  show ?thesis by (simp add: w l)
qed

text \<open>
  Claim C2, at the input where the code departs from it. For a timestamp pandas cannot
  parse, the serving path (predict.py, and app/main.py alike) raises nothing and returns
  the hour, day of week and weekend flag of the default timestamp, the same values both
  paths derive from the default timestamp itself; the training path raises on a column
  that starts with the unparseable timestamp.
\<close>

theorem unparseable_timestamp_serving_falls_back_batch_raises:
  assumes bad: "\<not> is_null pd s" "guess_format pd s = None" "dateutil pd s = None"
    and dflt: "\<not> is_null pd DEFAULT_ISO_DATETIME" "guess_format pd DEFAULT_ISO_DATETIME = Some fmt"
      "strptime pd fmt DEFAULT_ISO_DATETIME = Some d"
  shows "add_time_features pd s =
           Inr \<lparr> time_features.hour = Some (dt_hour d), time_features.day_of_week = Some (weekday d),
                 time_features.is_weekend = (if weekday d \<ge> 5 then 1 else 0) \<rparr> \<and>
         add_time_features pd DEFAULT_ISO_DATETIME = add_time_features pd s \<and>
         app_add_time_features pd s = add_time_features pd s \<and>
         extract_time_features pd [DEFAULT_ISO_DATETIME] =
           Inr [\<lparr> time_features.hour = Some (dt_hour d), time_features.day_of_week = Some (weekday d),
                  time_features.is_weekend = (if weekday d \<ge> 5 then 1 else 0) \<rparr>] \<and>
         extract_time_features pd (s # rest) = Inl DateParseError"
  using add_time_features_fallback [OF bad dflt] add_time_features_parsed [OF dflt]
    extract_time_features_single_parsed [OF dflt] extract_time_features_first_unparseable [OF bad, of rest]
  by (simp add: app_add_time_features_eq)

theorem unparseable_timestamp_serving_falls_back_batch_raises_witness:
  "add_time_features ref_pandas ''not-a-date'' =
     Inr \<lparr> time_features.hour = Some 9, time_features.day_of_week = Some 6,
           time_features.is_weekend = 1 \<rparr> \<and>
   add_time_features ref_pandas DEFAULT_ISO_DATETIME = add_time_features ref_pandas ''not-a-date'' \<and>
   app_add_time_features ref_pandas ''not-a-date'' = add_time_features ref_pandas ''not-a-date'' \<and>
   extract_time_features ref_pandas [DEFAULT_ISO_DATETIME] =
     Inr [\<lparr> time_features.hour = Some 9, time_features.day_of_week = Some 6,
            time_features.is_weekend = 1 \<rparr>] \<and>
   extract_time_features ref_pandas [''not-a-date''] = Inl DateParseError"
proof -
  from ref_pandas_facts have f:
    "\<not> is_null ref_pandas ''not-a-date''" "guess_format ref_pandas ''not-a-date'' = None"
    "dateutil ref_pandas ''not-a-date'' = None"
    "\<not> is_null ref_pandas DEFAULT_ISO_DATETIME"
    "guess_format ref_pandas DEFAULT_ISO_DATETIME = Some IsoSeconds"
    "strptime ref_pandas IsoSeconds DEFAULT_ISO_DATETIME =
       Some \<lparr> dt_year = 2025, dt_month = 8, dt_day = 24, dt_hour = 9, dt_minute = 0, dt_second = 0 \<rparr>"
    and w: "weekday \<lparr> dt_year = 2025, dt_month = 8, dt_day = 24, dt_hour = 9, dt_minute = 0, dt_second = 0 \<rparr> = 6"
    by blast+
  note t = unparseable_timestamp_serving_falls_back_batch_raises [OF f, of "[]", simplified w, simplified]
  from t show ?thesis by blast
qed

section \<open>Facts about amounts, and the amount claim\<close>

lemma round_half_even_small: "0 \<le> y \<Longrightarrow> y < 1 / 2 \<Longrightarrow> round_half_even y = 0"
proof -
  assume a: "0 \<le> y" "y < 1 / 2"
  then have "\<lfloor>y\<rfloor> = 0" by (simp add: floor_eq_iff)
  with a show ?thesis by (simp add: round_half_even_def Let_def)
qed

lemma round_half_even_between:
  assumes "of_int a \<le> y" "y \<le> of_int b"
  shows "a \<le> round_half_even y \<and> round_half_even y \<le> b"
proof -
  let ?f = "\<lfloor>y\<rfloor>"
  from assms(1) have af: "a \<le> ?f" by (simp add: le_floor_iff)
  from assms(2) have fb: "?f \<le> b" by (simp add: floor_le_iff)
  have up: "?f + 1 \<le> b" if "y - of_int ?f > 0"
  proof -
    from that have "of_int ?f < y" by simp
    with assms(2) have "(of_int ?f :: real) < of_int b" by linarith
    then have "?f < b" by simp
    then show ?thesis by simp
  qed
  show ?thesis
    using af fb up by (auto simp: round_half_even_def Let_def)
qed

lemma py_round_between:
  assumes "lo * 10 ^ n = of_int a" "hi * 10 ^ n = of_int b" "lo \<le> x" "x \<le> hi"
  shows "lo \<le> py_round x n \<and> py_round x n \<le> hi"
proof -
  have p: "(0::real) < 10 ^ n" by simp
  from assms(1,3) p have 1: "of_int a \<le> x * 10 ^ n" by (metis mult_le_cancel_right_pos)
  from assms(2,4) p have 2: "x * 10 ^ n \<le> of_int b" by (metis mult_le_cancel_right_pos)
  from round_half_even_between [OF 1 2]
  have r: "a \<le> round_half_even (x * 10 ^ n)" "round_half_even (x * 10 ^ n) \<le> b" by simp_all
  from r(1) have "(of_int a :: real) \<le> of_int (round_half_even (x * 10 ^ n))" by simp
  with assms(1) have "lo * 10 ^ n \<le> of_int (round_half_even (x * 10 ^ n))" by simp
  with p have lo: "lo \<le> py_round x n" by (simp add: py_round_def pos_le_divide_eq)
  from r(2) have "(of_int (round_half_even (x * 10 ^ n)) :: real) \<le> of_int b" by simp
  with assms(2) have "of_int (round_half_even (x * 10 ^ n)) \<le> hi * 10 ^ n" by simp
  with p have "py_round x n \<le> hi" by (simp add: py_round_def pos_divide_le_eq)
  with lo show ?thesis by simp
qed

lemma uniform_between:
  assumes "rng_ok R" "lo \<le> hi"
  shows "\<exists>x g'. uniform R lo hi g = Inr (x, g') \<and> lo \<le> x \<and> x \<le> hi"
proof -
  obtain u g' where d: "rs_random R g = (u, g')" by (cases "rs_random R g")
  from assms(1) have "0 \<le> fst (rs_random R g) \<and> fst (rs_random R g) < 1" by (simp add: rng_ok_def)
  with d have u: "0 \<le> u" "u < 1" by simp_all
  from u assms(2) have "0 \<le> (hi - lo) * u" by simp
  moreover from u assms(2) have "(hi - lo) * u \<le> (hi - lo) * 1"
    by (intro mult_left_mono) simp_all
  ultimately have "lo \<le> lo + (hi - lo) * u \<and> lo + (hi - lo) * u \<le> hi" by simp
  with d show ?thesis by (simp add: uniform_def)
qed

lemma choose_random_amount_negative_places:
  "d < 0 \<Longrightarrow> choose_random_amount R lo hi (Some d) s g = Inl ValueError"
  by (simp add: choose_random_amount_def se_raise_def)

lemma choose_random_amount_value:
  assumes "rng_ok R" "0 \<le> d"
  shows "\<exists>x g'. choose_random_amount R lo hi (Some d) s g = Inr (py_round (of_int s * x) (nat d), g') \<and>
           min lo hi \<le> x \<and> x \<le> max lo hi"
proof -
  have "min lo hi \<le> max lo hi" by simp
  from uniform_between [OF assms(1) this, of g] obtain x g' where
    x: "uniform R (min lo hi) (max lo hi) g = Inr (x, g')" "min lo hi \<le> x" "x \<le> max lo hi" by blast
  have "(if lo > hi then (hi, lo) else (lo, hi)) = (min lo hi, max lo hi)" by (simp add: min_def max_def)
  with x(1) assms(2) have "choose_random_amount R lo hi (Some d) s g =
      Inr (py_round (of_int s * x) (nat d), g')"
    by (simp add: choose_random_amount_def se_bind_def se_return_def)
  with x(2,3) show ?thesis by blast
qed


lemma amount_spec_facts:
  "\<exists>a b. low (get_amount_spec category) = of_int a \<and> high (get_amount_spec category) = of_int b \<and>
     a \<le> b \<and> (sign (get_amount_spec category) = 1 \<or> sign (get_amount_spec category) = - 1)"
proof -
  have "get_amount_spec category \<in> set (map snd (amounts SETTINGS)) \<union> {default_amount SETTINGS}"
  proof (cases "map_of (amounts SETTINGS) category")
    case None
    then show ?thesis by (simp add: get_amount_spec_def)
  next
    case (Some spec)
    then have "(category, spec) \<in> set (amounts SETTINGS)" by (rule map_of_SomeD)
    then have "snd (category, spec) \<in> snd ` set (amounts SETTINGS)" by (rule imageI)
    with Some show ?thesis by (simp add: get_amount_spec_def)
  qed
  then have "get_amount_spec category \<in>
      {\<lparr> low = 8, high = 120, sign = -1 \<rparr>, \<lparr> low = 3, high = 70, sign = -1 \<rparr>,
       \<lparr> low = 2, high = 30, sign = -1 \<rparr>, \<lparr> low = 4, high = 20, sign = -1 \<rparr>,
       \<lparr> low = 20, high = 500, sign = -1 \<rparr>, \<lparr> low = 3, high = 120, sign = -1 \<rparr>,
       \<lparr> low = 5, high = 500, sign = -1 \<rparr>, \<lparr> low = 800, high = 2500, sign = 1 \<rparr>,
       \<lparr> low = 1, high = 80, sign = -1 \<rparr>}"
    by (simp add: SETTINGS_def) blast
  then show ?thesis
  proof (elim insertE emptyE)
    assume "get_amount_spec category = \<lparr> low = 8, high = 120, sign = -1 \<rparr>"
    then show ?thesis by (intro exI [of _ 8] exI [of _ 120]) simp
  next
    assume "get_amount_spec category = \<lparr> low = 3, high = 70, sign = -1 \<rparr>"
    then show ?thesis by (intro exI [of _ 3] exI [of _ 70]) simp
  next
    assume "get_amount_spec category = \<lparr> low = 2, high = 30, sign = -1 \<rparr>"
    then show ?thesis by (intro exI [of _ 2] exI [of _ 30]) simp
  next
    assume "get_amount_spec category = \<lparr> low = 4, high = 20, sign = -1 \<rparr>"
    then show ?thesis by (intro exI [of _ 4] exI [of _ 20]) simp
  next
    assume "get_amount_spec category = \<lparr> low = 20, high = 500, sign = -1 \<rparr>"
    then show ?thesis by (intro exI [of _ 20] exI [of _ 500]) simp
  next
    assume "get_amount_spec category = \<lparr> low = 3, high = 120, sign = -1 \<rparr>"
    then show ?thesis by (intro exI [of _ 3] exI [of _ 120]) simp
  next
    assume "get_amount_spec category = \<lparr> low = 5, high = 500, sign = -1 \<rparr>"
    then show ?thesis by (intro exI [of _ 5] exI [of _ 500]) simp
  next
    assume "get_amount_spec category = \<lparr> low = 800, high = 2500, sign = 1 \<rparr>"
    then show ?thesis by (intro exI [of _ 800] exI [of _ 2500]) simp
  next
    assume "get_amount_spec category = \<lparr> low = 1, high = 80, sign = -1 \<rparr>"
    then show ?thesis by (intro exI [of _ 1] exI [of _ 80]) simp
  qed
qed

lemma rand_amount_in_bounds:
  assumes "rng_ok R"
  shows "\<exists>v g'. rand_amount R category None g = Inr (v, g') \<and>
           in_signed_bounds (get_amount_spec category) v \<and>
           (\<exists>c::int. v * 100 = of_int c)"
proof -
  let ?spec = "get_amount_spec category"
  from amount_spec_facts [of category] obtain a b where
    ab: "low ?spec = of_int a" "high ?spec = of_int b" "a \<le> b"
      "sign ?spec = 1 \<or> sign ?spec = - 1" by blast
  have d: "(0::int) \<le> 2" by simp
  from choose_random_amount_value [OF assms d, of "low ?spec" "high ?spec" "sign ?spec" g]
  obtain x g' where
    x: "choose_random_amount R (low ?spec) (high ?spec) (Some 2) (sign ?spec) g =
          Inr (py_round (of_int (sign ?spec) * x) (nat 2), g')"
      "min (low ?spec) (high ?spec) \<le> x" "x \<le> max (low ?spec) (high ?spec)" by blast
  from ab(1,2,3) x(2,3) have xb: "of_int a \<le> x" "x \<le> of_int b" by (simp_all add: min_def max_def)
  have same: "choose_random_amount R lo hi None s g = choose_random_amount R lo hi (Some 2) s g"
    for lo hi s by (simp add: choose_random_amount_def SETTINGS_def)
  have r: "rand_amount R category None g = Inr (py_round (of_int (sign ?spec) * x) (nat 2), g')"
    using x(1) by (simp add: rand_amount_def Let_def same)
  have grid: "\<exists>c::int. py_round y 2 * 100 = of_int c" for y
    by (simp add: py_round_def)
  from ab(4) have "in_signed_bounds ?spec (py_round (of_int (sign ?spec) * x) (nat 2))"
  proof
    assume s: "sign ?spec = 1"
    have "of_int a \<le> py_round x 2 \<and> py_round x 2 \<le> of_int b"
      by (rule py_round_between [of _ _ "a * 100" _ "b * 100"]) (use xb in simp_all)
    with s ab(1,2) show ?thesis by (simp add: in_signed_bounds_def)
  next
    assume s: "sign ?spec = - 1"
    have "- of_int b \<le> py_round (- x) 2 \<and> py_round (- x) 2 \<le> - of_int a"
      by (rule py_round_between [of _ _ "- b * 100" _ "- a * 100"]) (use xb in simp_all)
    with s ab(1,2) show ?thesis by (simp add: in_signed_bounds_def)
  qed
  with r grid show ?thesis by (auto simp: numeral_2_eq_2)
qed

text \<open>
  Claim C8, at an input where the code departs from it: bounds 0.25 and 0.375, sign 1,
  zero decimal places. Whatever the generator draws, the sample lies between the bounds,
  rounding takes it to 0, and 0 is returned, below the lower bound. (All three numbers
  are binary fractions and the sample is below one half, so floating point gives the
  same 0.0.) What holds of the claim is in the lemmas above: a negative number of
  places raises ValueError and draws nothing, the value returned is the rounded signed
  sample of the normalised range, and for every category of the settings, whose bounds
  are whole numbers, \<^verbatim>\<open>rand_amount\<close> stays within the signed bounds.
\<close>

theorem choose_random_amount_leaves_bounds:
  assumes "rng_ok R"
  shows "\<exists>v g'. choose_random_amount R (1 / 4) (3 / 8) (Some 0) 1 g = Inr (v, g') \<and> v = 0 \<and>
           \<not> (1 / 4 \<le> v \<and> v \<le> 3 / 8)"
proof -
  have d: "(0::int) \<le> 0" by simp
  from choose_random_amount_value [OF assms d, of "1 / 4" "3 / 8" 1 g] obtain x g' where
    x: "choose_random_amount R (1 / 4) (3 / 8) (Some 0) 1 g = Inr (py_round (of_int 1 * x) (nat 0), g')"
      "min (1 / 4) (3 / 8) \<le> x" "x \<le> max (1 / 4) (3 / 8)" by blast
  from x(2,3) have "0 \<le> x" "x < 1 / 2" by (simp_all add: min_def max_def)
  then have "round_half_even x = 0" by (rule round_half_even_small)
  then have "py_round (of_int 1 * x) (nat 0) = 0" by (simp add: py_round_def)
  with x(1) show ?thesis by simp
qed

theorem choose_random_amount_leaves_bounds_witness:
  "rng_ok lcg \<and>
   (\<exists>v g'. choose_random_amount lcg (1 / 4) (3 / 8) (Some 0) 1 5 = Inr (v, g') \<and> v = 0 \<and>
      \<not> (1 / 4 \<le> v \<and> v \<le> 3 / 8))"
  using lcg_ok choose_random_amount_leaves_bounds [OF lcg_ok, of 5] by blast

section \<open>The ranked answer\<close>

lemma topk_item_ok:
  assumes i: "i < length p"
    and names: "\<forall>names. cn = Some names \<longrightarrow> names = [] \<or> length p \<le> length names"
  shows "topk_item cn p i = Inr (name_of cn i, p ! i)"
proof (cases cn)
  case None
  with i show ?thesis by (simp add: name_of_def topk_item_def)
next
  case (Some names)
  with names have "names = [] \<or> length p \<le> length names" by simp
  then show ?thesis
  proof
    assume "names = []"
    with i Some show ?thesis by (simp add: name_of_def topk_item_def)
  next
    assume "length p \<le> length names"
    with i have "i < length names" "names \<noteq> []" by auto
    with i Some show ?thesis by (simp add: name_of_def topk_item_def)
  qed
qed

lemma argsort_ok_facts:
  assumes "argsort_ok argsort p"
  shows "set (argsort p) = {0..<length p}" "length (argsort p) = length p"
    "distinct (argsort p)" "sorted (map (\<lambda>i. p ! i) (argsort p))"
proof -
  from assms have s: "sort (argsort p) = [0..<length p]" by (simp add: argsort_ok_def)
  have "set (argsort p) = set (sort (argsort p))" by simp
  then show "set (argsort p) = {0..<length p}" by (simp only: s set_upt)
  have "length (argsort p) = length (sort (argsort p))" by simp
  then show "length (argsort p) = length p" by (simp only: s length_upt diff_zero)
  have "distinct (argsort p) = distinct (sort (argsort p))" by simp
  then show "distinct (argsort p)" by (simp only: s distinct_upt)
  from assms show "sorted (map (\<lambda>i. p ! i) (argsort p))" by (simp add: argsort_ok_def)
qed

lemma stable_argsort_ok: "argsort_ok stable_argsort p"
proof -
  have "sort (sort_key (\<lambda>i. p ! i) [0..<length p]) = [0..<length p]"
    by (rule sorted_distinct_set_unique) simp_all
  then show ?thesis by (simp add: argsort_ok_def stable_argsort_def)
qed

lemma map_err_all_Inr:
  "\<forall>x \<in> set xs. f x = Inr (g x) \<Longrightarrow> map_err f xs = Inr (map g xs)"
  by (induction xs) simp_all

lemma set_slice_to: "set (slice_to xs k) \<subseteq> set xs"
  by (auto simp: slice_to_def dest: in_set_takeD)

lemma topk_items_eval:
  assumes ok: "argsort_ok argsort p"
    and names: "\<forall>names. cn = Some names \<longrightarrow> names = [] \<or> length p \<le> length names"
  shows "topk_items argsort cn p k =
           Inr (map (\<lambda>i. (name_of cn i, p ! i))
                  (slice_to (rev (argsort p)) (min k (int (length p)))))"
proof -
  have "\<forall>i \<in> set (slice_to (rev (argsort p)) (min k (int (length p)))).
          topk_item cn p i = Inr (name_of cn i, p ! i)"
  proof
    fix i assume i: "i \<in> set (slice_to (rev (argsort p)) (min k (int (length p))))"
    have "i \<in> set (rev (argsort p))"
      using set_slice_to [of "rev (argsort p)" "min k (int (length p))"] i by (rule subsetD)
    with argsort_ok_facts(1) [OF ok] have "i < length p" by simp
    from topk_item_ok [OF this names] show "topk_item cn p i = Inr (name_of cn i, p ! i)" .
  qed
  then have "map_err (topk_item cn p) (slice_to (rev (argsort p)) (min k (int (length p)))) =
      Inr (map (\<lambda>i. (name_of cn i, p ! i)) (slice_to (rev (argsort p)) (min k (int (length p)))))"
    by (rule map_err_all_Inr)
  then show ?thesis by (simp add: topk_items_def Let_def)
qed


lemma slice_to_pos: "1 \<le> k \<Longrightarrow> length xs = n \<Longrightarrow>
    slice_to xs (min k (int n)) = take (min (nat k) n) xs"
  by (auto simp: slice_to_def min_def)

lemma ranked_desc:
  assumes "argsort_ok argsort p"
  shows "sorted_wrt (\<lambda>a b. snd b \<le> snd a)
           (map (\<lambda>i. (nm i, p ! i)) (take m (rev (argsort p))))"
proof -
  from argsort_ok_facts(4) [OF assms]
  have "sorted_wrt (\<lambda>i j. p ! i \<le> p ! j) (argsort p)" by (simp add: sorted_map)
  then have "sorted_wrt (\<lambda>i j. p ! j \<le> p ! i) (rev (argsort p))" by (simp add: sorted_wrt_rev)
  then have "sorted_wrt (\<lambda>i j. p ! j \<le> p ! i) (take m (rev (argsort p)))" by (rule sorted_wrt_take)
  then show ?thesis by (simp add: sorted_wrt_map)
qed

lemma topk_items_ranked:
  assumes ok: "argsort_ok argsort p" and ne: "p \<noteq> []" and k: "1 \<le> k"
    and names: "\<forall>names. cn = Some names \<longrightarrow> names = [] \<or> length p \<le> length names"
  shows "\<exists>top1 rest.
           top1 # rest = map (\<lambda>i. (name_of cn i, p ! i))
                           (take (min (nat k) (length p)) (rev (argsort p))) \<and>
           topk_items argsort cn p k = Inr (top1 # rest) \<and>
           length (top1 # rest) = min (nat k) (length p) \<and>
           sorted_wrt (\<lambda>a b. snd b \<le> snd a) (top1 # rest)"
proof -
  define items where "items = map (\<lambda>i. (name_of cn i, p ! i))
                  (take (min (nat k) (length p)) (rev (argsort p)))"
  have len: "length (rev (argsort p)) = length p" by (simp add: argsort_ok_facts(2) [OF ok])
  have a: "topk_items argsort cn p k = Inr items"
    unfolding items_def topk_items_eval [OF ok names] slice_to_pos [OF k len] ..
  have l: "length items = min (nat k) (length p)"
    unfolding items_def by (simp add: argsort_ok_facts(2) [OF ok])
  have sd: "sorted_wrt (\<lambda>a b. snd b \<le> snd a) items"
    unfolding items_def by (rule ranked_desc [OF ok])
  from ne k have "0 < min (nat k) (length p)" by simp
  with l have "0 < length items" by simp
  then obtain top1 rest where tr: "items = top1 # rest" by (cases items) simp_all
  note a [unfolded tr] l [unfolded tr] sd [unfolded tr]
  moreover have "top1 # rest = map (\<lambda>i. (name_of cn i, p ! i))
                           (take (min (nat k) (length p)) (rev (argsort p)))"
    using tr unfolding items_def by simp
  ultimately show ?thesis by (intro exI [of _ top1] exI [of _ rest] conjI)
qed

lemma predict_main_ranked:
  assumes "load_pipeline model_path fs = Inr (PModel m)"
    and "predict_proba m = Some pp"
    and "build_feature_row lower pd mer des amt stamp = Inr X"
    and "pp X = Inr (proba # others)"
    and "topk_items argsort (get_class_names (PModel m)) proba k = Inr (item # rest)"
  shows "predict_main argsort lower pd fs mer des amt stamp k model_path =
           Inr (Ranked (mer, des, amt, stamp) item (item # rest))"
  using assms by (simp add: predict_main_def)

lemma app_predict_ranked:
  assumes "predict_proba m = Some pp"
    and "app_build_feature_row lower pd mer des amt stamp = Inr X"
    and "pp X = Inr (proba # others)"
    and "topk_items argsort cn proba k = Inr (item # rest)"
  shows "app_predict argsort lower pd (Some (PModel m)) cn (mer, des, amt, stamp, k) =
           Inr \<lparr> resp_input = (mer, des, amt, stamp, k), resp_top1 = Some item,
                 resp_topk = Some (item # rest), resp_prediction = None \<rparr>"
  using assms by (simp add: app_predict_def)

section \<open>Loading the artifact\<close>

lemma load_pipeline_saved: "load_pipeline path (save_artifacts p labels path fs) = Inr p"
  by (simp add: load_pipeline_def save_artifacts_def)

lemma load_pipeline_bare: "load_pipeline path (fs(path \<mapsto> PModel m)) = Inr (PModel m)"
  by (simp add: load_pipeline_def)

lemma load_model_bare:
  "load_model path (fs(path \<mapsto> PModel m)) =
     Inr (PModel m,
          case (case named_steps m of Some steps \<Rightarrow> map_of steps ''classifier'' | None \<Rightarrow> None) of
            Some clf \<Rightarrow> clf_classes clf
          | None \<Rightarrow> own_classes m)"
  by (simp add: load_model_def Let_def split: option.splits)

lemma load_model_saved:
  "load_model path (save_artifacts (PModel m) labels path fs) = load_model path (fs(path \<mapsto> PModel m))"
  by (simp add: load_model_def save_artifacts_def)

lemma get_class_names_steps:
  "get_class_names (PModel m) =
     (case (case named_steps m of Some steps \<Rightarrow> map_of steps ''classifier'' | None \<Rightarrow> None) of
        Some clf \<Rightarrow> clf_classes clf
      | None \<Rightarrow> None)"
  by (simp add: get_class_names_def split: option.splits)


lemma name_of_Some: "names \<noteq> [] \<Longrightarrow> name_of (Some names) = (\<lambda>i. names ! i)"
  by (intro ext) (simp add: name_of_def)


section \<open>The examples evaluated\<close>

lemma demo_model_facts:
  "get_class_names (PModel (demo_model names p)) = Some names"
  "predict_proba (demo_model names p) = Some (\<lambda>X. Inr (map (\<lambda>row. p) X))"
  by (simp_all add: get_class_names_def demo_model_def)

lemma demo_bare_facts:
  "named_steps (demo_bare p) = None"
  "own_classes (demo_bare p) = None"
  "predict_proba (demo_bare p) = Some (\<lambda>X. Inr (map (\<lambda>row. p) X))"
  by (simp_all add: demo_bare_def)

lemma default_row:
  "build_feature_row lower_ascii ref_pandas ''Tesco'' ''groceries'' 43 DEFAULT_ISO_DATETIME =
     Inr [\<lparr> combined_text = ''tesco groceries'', merchant_text = ''tesco'', amount = 43,
            hour = Some 9, day_of_week = Some 6, is_weekend = 1 \<rparr>]"
  by code_simp

lemma abc_eval:
  "topk_items stable_argsort (Some [''A'', ''B'', ''C'']) [1 / 10, 5 / 10, 4 / 10] 2 =
     Inr [(''B'', 5 / 10), (''C'', 4 / 10)]"
  by code_simp


lemma tie_eval:
  "topk_items stable_argsort (Some [''A'', ''B'']) [1 / 2, 1 / 2] 2 =
     Inr [(''B'', 1 / 2), (''A'', 1 / 2)]"
  by code_simp

lemma fitted_differs: "fitted_classes \<noteq> categories SETTINGS"
  by (simp add: fitted_classes_def SETTINGS_def)

section \<open>Top-k ranking\<close>

text \<open>
  Claim C7. Whenever the loaded pipeline has \<^verbatim>\<open>predict_proba\<close> and class names, one name
  per class, the probability vector \<open>proba\<close> of the row has \<open>n \<ge> 1\<close> entries and the
  requested \<open>k\<close> is at least 1 (as the route's schema and a sensible command line have
  it), both entry points return: the ranked list has exactly \<open>min k n\<close> pairs (category,
  probability), the pairs of the first \<open>min k n\<close> indices of the reversed argsort, in
  non-increasing order of probability, and its first pair is also the top-1 answer. This
  holds for every argsort that sorts the vector. The two examples of the claim are
  evaluated in the witness: probabilities 0.1, 0.5, 0.4 for classes A, B, C with
  \<open>k = 2\<close> give (B, 0.5), (C, 0.4) with top-1 (B, 0.5), and \<open>k = 20\<close> against nine
  classes gives nine entries.
\<close>

theorem rank_topk:
  assumes ok: "argsort_ok argsort proba" and ne: "proba \<noteq> []" and k: "1 \<le> k"
    and names: "length names = length proba"
    and load: "load_pipeline model_path fs = Inr (PModel m)"
    and cn: "get_class_names (PModel m) = Some names"
    and pp: "predict_proba m = Some pp"
    and X: "build_feature_row lower pd mer des amt stamp = Inr X"
    and pr: "pp X = Inr (proba # others)"
  shows "\<exists>top1 rest.
           top1 # rest = map (\<lambda>i. (names ! i, proba ! i))
                           (take (min (nat k) (length proba)) (rev (argsort proba))) \<and>
           topk_items argsort (Some names) proba k = Inr (top1 # rest) \<and>
           length (top1 # rest) = min (nat k) (length proba) \<and>
           sorted_wrt (\<lambda>a b. snd b \<le> snd a) (top1 # rest) \<and>
           predict_main argsort lower pd fs mer des amt stamp k model_path =
             Inr (Ranked (mer, des, amt, stamp) top1 (top1 # rest)) \<and>
           app_predict argsort lower pd (Some (PModel m)) (Some names) (mer, des, amt, stamp, k) =
             Inr \<lparr> resp_input = (mer, des, amt, stamp, k), resp_top1 = Some top1,
                   resp_topk = Some (top1 # rest), resp_prediction = None \<rparr>"
proof -
  from names ne have nn: "names \<noteq> []" by auto
  from names have c: "\<forall>ns. Some names = Some ns \<longrightarrow> ns = [] \<or> length proba \<le> length ns" by simp
  from topk_items_ranked [OF ok ne k c] obtain top1 rest where
    t: "top1 # rest = map (\<lambda>i. (name_of (Some names) i, proba ! i))
                           (take (min (nat k) (length proba)) (rev (argsort proba)))"
      "topk_items argsort (Some names) proba k = Inr (top1 # rest)"
      "length (top1 # rest) = min (nat k) (length proba)"
      "sorted_wrt (\<lambda>a b. snd b \<le> snd a) (top1 # rest)"
    by (elim exE conjE) (rule that, assumption+)
  from t(2) cn have t': "topk_items argsort (get_class_names (PModel m)) proba k = Inr (top1 # rest)"
    by simp
  from X have X': "app_build_feature_row lower pd mer des amt stamp = Inr X"
    by (simp add: app_build_feature_row_eq)
  note predict_main_ranked [OF load pp X pr t'] app_predict_ranked [OF pp X' pr t(2)]
    t(1) [unfolded name_of_Some [OF nn]] t(2,3,4)
  then show ?thesis by (intro exI [of _ top1] exI [of _ rest] conjI)
qed

theorem rank_topk_witness:
  "topk_items stable_argsort (Some [''A'', ''B'', ''C'']) [1 / 10, 5 / 10, 4 / 10] 2 =
     Inr [(''B'', 5 / 10), (''C'', 4 / 10)] \<and>
   predict_main stable_argsort lower_ascii ref_pandas
     (save_artifacts (PModel (demo_model [''A'', ''B'', ''C''] [1 / 10, 5 / 10, 4 / 10]))
        [''A'', ''B'', ''C''] ''model.pkl'' Map.empty)
     ''Tesco'' ''groceries'' 43 DEFAULT_ISO_DATETIME 2 ''model.pkl'' =
     Inr (Ranked (''Tesco'', ''groceries'', 43, DEFAULT_ISO_DATETIME)
            (''B'', 5 / 10) [(''B'', 5 / 10), (''C'', 4 / 10)]) \<and>
   app_predict stable_argsort lower_ascii ref_pandas
     (Some (PModel (demo_model [''A'', ''B'', ''C''] [1 / 10, 5 / 10, 4 / 10])))
     (Some [''A'', ''B'', ''C'']) (''Tesco'', ''groceries'', 43, DEFAULT_ISO_DATETIME, 2) =
     Inr \<lparr> resp_input = (''Tesco'', ''groceries'', 43, DEFAULT_ISO_DATETIME, 2),
           resp_top1 = Some (''B'', 5 / 10),
           resp_topk = Some [(''B'', 5 / 10), (''C'', 4 / 10)], resp_prediction = None \<rparr> \<and>
   (\<exists>top1 rest.
      topk_items stable_argsort (Some fitted_classes) demo_proba 20 = Inr (top1 # rest) \<and>
      length (top1 # rest) = 9 \<and>
      sorted_wrt (\<lambda>a b. snd b \<le> snd a) (top1 # rest))"
proof -
  let ?p = "[1 / 10, 5 / 10, 4 / 10 :: real]"
  let ?n = "[''A'', ''B'', ''C'']"
  let ?fs = "save_artifacts (PModel (demo_model ?n ?p)) ?n ''model.pkl'' Map.empty"
  let ?row = "[\<lparr> combined_text = ''tesco groceries'', merchant_text = ''tesco'', amount = 43,
            hour = Some 9, day_of_week = Some 6, is_weekend = 1 \<rparr>]"
  have ne: "?p \<noteq> []" and k: "(1::int) \<le> 2" and names: "length ?n = length ?p" by simp_all
  have pr: "(\<lambda>X. Inr (map (\<lambda>row. ?p) X)) ?row = Inr (?p # [])" by simp
  note lp = load_pipeline_saved [where path = "''model.pkl''" and labels = "?n" and fs = Map.empty
      and p = "PModel (demo_model ?n ?p)"]
  from rank_topk [OF stable_argsort_ok ne k names lp demo_model_facts default_row pr]
  obtain top1 rest where
    t: "topk_items stable_argsort (Some ?n) ?p 2 = Inr (top1 # rest)"
      "predict_main stable_argsort lower_ascii ref_pandas ?fs
         ''Tesco'' ''groceries'' 43 DEFAULT_ISO_DATETIME 2 ''model.pkl'' =
       Inr (Ranked (''Tesco'', ''groceries'', 43, DEFAULT_ISO_DATETIME) top1 (top1 # rest))"
      "app_predict stable_argsort lower_ascii ref_pandas (Some (PModel (demo_model ?n ?p)))
         (Some ?n) (''Tesco'', ''groceries'', 43, DEFAULT_ISO_DATETIME, 2) =
       Inr \<lparr> resp_input = (''Tesco'', ''groceries'', 43, DEFAULT_ISO_DATETIME, 2),
             resp_top1 = Some top1, resp_topk = Some (top1 # rest), resp_prediction = None \<rparr>"
    by (elim exE conjE) (rule that, assumption+)
  from t(1) abc_eval have e: "top1 = (''B'', 5 / 10)" "rest = [(''C'', 4 / 10)]" by simp_all
  have ne9: "demo_proba \<noteq> []" and k9: "(1::int) \<le> 20"
    and names9: "length fitted_classes = length demo_proba"
    by (simp_all add: demo_proba_def fitted_classes_def)
  have pr9: "(\<lambda>X. Inr (map (\<lambda>row. demo_proba) X)) ?row = Inr (demo_proba # [])" by simp
  note lp9 = load_pipeline_saved [where path = "''model.pkl''" and labels = "fitted_classes" and fs = Map.empty
      and p = "PModel (demo_model fitted_classes demo_proba)"]
  from rank_topk [OF stable_argsort_ok ne9 k9 names9 lp9 demo_model_facts default_row pr9]
  obtain top9 rest9 where
    t9: "topk_items stable_argsort (Some fitted_classes) demo_proba 20 = Inr (top9 # rest9)"
      "length (top9 # rest9) = min (nat 20) (length demo_proba)"
      "sorted_wrt (\<lambda>a b. snd b \<le> snd a) (top9 # rest9)"
    by (elim exE conjE) (rule that, assumption+)
  from t9(2) have l9: "length (top9 # rest9) = 9" by (simp add: demo_proba_def)
  from t9(1) l9 t9(3) have "\<exists>top1 rest.
      topk_items stable_argsort (Some fitted_classes) demo_proba 20 = Inr (top1 # rest) \<and>
      length (top1 # rest) = 9 \<and>
      sorted_wrt (\<lambda>a b. snd b \<le> snd a) (top1 # rest)"
    by (intro exI [of _ top9] exI [of _ rest9] conjI)
  with abc_eval t(2,3) [unfolded e] show ?thesis by (intro conjI)
qed

section \<open>A model without class names\<close>



section \<open>Equal probabilities\<close>

text \<open>
  A stable argsort lists equal entries in index order; the ranker reverses the whole
  order, equal entries included.
\<close>

lemma filter_eq_appendD:
  "filter P xs = ys @ zs \<Longrightarrow> \<exists>us vs. xs = us @ vs \<and> filter P us = ys \<and> filter P vs = zs"
proof (induction xs arbitrary: ys)
  case Nil
  then show ?case by simp
next
  case (Cons x xs)
  show ?case
  proof (cases "P x")
    case False
    with Cons.prems have "filter P xs = ys @ zs" by simp
    from Cons.IH [OF this] obtain us vs where
      "xs = us @ vs" "filter P us = ys" "filter P vs = zs" by blast
    with False have "x # xs = (x # us) @ vs \<and> filter P (x # us) = ys \<and> filter P vs = zs" by simp
    then show ?thesis by blast
  next
    case True
    show ?thesis
    proof (cases ys)
      case Nil
      with Cons.prems have "x # xs = [] @ (x # xs) \<and> filter P [] = ys \<and> filter P (x # xs) = zs"
        by simp
      then show ?thesis by blast
    next
      case (Cons y ys')
      with True Cons.prems have y: "y = x" and r: "filter P xs = ys' @ zs" by simp_all
      from Cons.IH [OF r] obtain us vs where
        "xs = us @ vs" "filter P us = ys'" "filter P vs = zs" by blast
      with True y Cons have "x # xs = (x # us) @ vs \<and> filter P (x # us) = ys \<and> filter P vs = zs"
        by simp
      then show ?thesis by blast
    qed
  qed
qed

lemma filter_order:
  assumes "filter P xs = as @ a # bs @ b # cs"
  shows "\<exists>as' bs' cs'. xs = as' @ a # bs' @ b # cs'"
proof -
  from filter_eq_appendD [OF assms] obtain us vs where
    xs: "xs = us @ vs" and vs: "filter P vs = a # bs @ b # cs" by blast
  from vs obtain u1 v1 where v1: "vs = u1 @ a # v1" and f1: "filter P v1 = bs @ b # cs"
    by (auto simp: filter_eq_Cons_iff)
  from filter_eq_appendD [OF f1] obtain u2 v2 where
    v2: "v1 = u2 @ v2" and f2: "filter P v2 = b # cs" by blast
  from f2 obtain u3 v3 where v3: "v2 = u3 @ b # v3" by (auto simp: filter_eq_Cons_iff)
  from xs v1 v2 v3 have "xs = (us @ u1) @ a # (u2 @ u3) @ b # v3" by simp
  then show ?thesis by blast
qed

lemma upt_split_two:
  assumes "i < j" "j < n"
  shows "[0..<n] = [0..<i] @ i # [Suc i..<j] @ j # [Suc j..<n]"
proof -
  from assms have "[0..<n] = [0..<i] @ [i..<n]"
    using upt_add_eq_append [of 0 i "n - i"] by simp
  also from assms have "[i..<n] = i # [Suc i..<n]" by (simp add: upt_conv_Cons)
  also from assms have "[Suc i..<n] = [Suc i..<j] @ [j..<n]"
    using upt_add_eq_append [of "Suc i" j "n - j"] by simp
  also from assms have "[j..<n] = j # [Suc j..<n]" by (simp add: upt_conv_Cons)
  finally show ?thesis .
qed

lemma stable_argsort_ties:
  assumes ij: "i < j" and j: "j < length p" and tie: "p ! i = p ! j"
  shows "\<exists>as bs cs. stable_argsort p = as @ i # bs @ j # cs"
proof -
  let ?P = "\<lambda>y. p ! y = p ! i"
  have "filter ?P (stable_argsort p) = filter ?P [0..<length p]"
    unfolding stable_argsort_def by (rule sort_key_stable)
  also have "\<dots> = filter ?P [0..<i] @ i # filter ?P [Suc i..<j] @ j # filter ?P [Suc j..<length p]"
    using tie by (simp add: upt_split_two [OF ij j])
  finally show ?thesis by (rule filter_order)
qed

lemma rev_stable_argsort_ties:
  assumes ij: "i < j" and j: "j < length p" and tie: "p ! i = p ! j"
  shows "\<exists>as bs cs. rev (stable_argsort p) = as @ j # bs @ i # cs"
proof -
  from stable_argsort_ties [OF assms] obtain as bs cs where
    "stable_argsort p = as @ i # bs @ j # cs" by blast
  then have "rev (stable_argsort p) = rev cs @ j # rev bs @ i # rev as" by simp
  then show ?thesis by blast
qed

text \<open>
  Claim C3, as the code has it. The ranked order is the reversed argsort: non-increasing
  in probability, and among equal probabilities the reverse of the order argsort gives
  them. With the stable argsort, which lists equal entries by ascending index, two classes
  \<open>i < j\<close> of equal probability are ranked \<open>j\<close> before \<open>i\<close>: the class with the
  higher index comes first, and the top-k output is the first \<open>min k n\<close> entries of that
  order.
\<close>

theorem ties_ranked_higher_index_first:
  assumes ij: "i < j" and j: "j < length proba" and tie: "proba ! i = proba ! j"
    and k: "1 \<le> k" and names: "length names = length proba"
  shows "\<exists>as bs cs.
           rev (stable_argsort proba) = as @ j # bs @ i # cs \<and>
           sorted_wrt (\<lambda>a b. proba ! b \<le> proba ! a) (rev (stable_argsort proba)) \<and>
           topk_items stable_argsort (Some names) proba k =
             Inr (take (min (nat k) (length proba))
                    (map (\<lambda>c. (names ! c, proba ! c)) (as @ j # bs @ i # cs)))"
proof -
  from j have ne: "proba \<noteq> []" by auto
  with names have nn: "names \<noteq> []" by auto
  from names have c: "\<forall>ns. Some names = Some ns \<longrightarrow> ns = [] \<or> length proba \<le> length ns" by simp
  from rev_stable_argsort_ties [OF ij j tie] obtain as bs cs where
    r: "rev (stable_argsort proba) = as @ j # bs @ i # cs" by blast
  from argsort_ok_facts(4) [OF stable_argsort_ok [of proba]]
  have "sorted_wrt (\<lambda>a b. proba ! a \<le> proba ! b) (stable_argsort proba)" by (simp add: sorted_map)
  then have s: "sorted_wrt (\<lambda>a b. proba ! b \<le> proba ! a) (rev (stable_argsort proba))"
    by (simp add: sorted_wrt_rev)
  from topk_items_ranked [OF stable_argsort_ok ne k c] obtain top1 rest where
    t: "top1 # rest = map (\<lambda>c. (name_of (Some names) c, proba ! c))
                           (take (min (nat k) (length proba)) (rev (stable_argsort proba)))"
      "topk_items stable_argsort (Some names) proba k = Inr (top1 # rest)"
    by (elim exE conjE) (rule that, assumption+)
  from t(2) have "topk_items stable_argsort (Some names) proba k =
      Inr (take (min (nat k) (length proba))
             (map (\<lambda>c. (names ! c, proba ! c)) (as @ j # bs @ i # cs)))"
    unfolding t(1) name_of_Some [OF nn] r take_map .
  with r s show ?thesis by (intro exI [of _ as] exI [of _ bs] exI [of _ cs] conjI)
qed

theorem ties_ranked_higher_index_first_witness:
  "\<exists>as bs cs.
     rev (stable_argsort [1 / 2, 1 / 2]) = as @ 1 # bs @ 0 # cs \<and>
     sorted_wrt (\<lambda>a b. [1 / 2, 1 / 2 :: real] ! b \<le> [1 / 2, 1 / 2] ! a)
       (rev (stable_argsort [1 / 2, 1 / 2])) \<and>
     topk_items stable_argsort (Some [''A'', ''B'']) [1 / 2, 1 / 2] 2 =
       Inr (take (min (nat 2) (length [1 / 2, 1 / 2 :: real]))
              (map (\<lambda>c. ([''A'', ''B''] ! c, [1 / 2, 1 / 2 :: real] ! c)) (as @ 1 # bs @ 0 # cs)))"
  using ties_ranked_higher_index_first [of 0 1 "[1 / 2, 1 / 2]" 2 "[''A'', ''B'']"] by simp

text \<open>
  Claim C3 as stated fails: for classes A, B of probability one half each and \<open>k = 2\<close>,
  both entry points rank B, the class of index 1, before A, the class of index 0.
\<close>

theorem tied_classes_ranked_in_reverse_index_order:
  "topk_items stable_argsort (Some [''A'', ''B'']) [1 / 2, 1 / 2] 2 =
     Inr [(''B'', 1 / 2), (''A'', 1 / 2)] \<and>
   predict_main stable_argsort lower_ascii ref_pandas
     (save_artifacts (PModel (demo_model [''A'', ''B''] [1 / 2, 1 / 2])) [''A'', ''B'']
        ''model.pkl'' Map.empty)
     ''Tesco'' ''groceries'' 43 DEFAULT_ISO_DATETIME 2 ''model.pkl'' =
     Inr (Ranked (''Tesco'', ''groceries'', 43, DEFAULT_ISO_DATETIME)
            (''B'', 1 / 2) [(''B'', 1 / 2), (''A'', 1 / 2)]) \<and>
   app_predict stable_argsort lower_ascii ref_pandas
     (Some (PModel (demo_model [''A'', ''B''] [1 / 2, 1 / 2]))) (Some [''A'', ''B''])
     (''Tesco'', ''groceries'', 43, DEFAULT_ISO_DATETIME, 2) =
     Inr \<lparr> resp_input = (''Tesco'', ''groceries'', 43, DEFAULT_ISO_DATETIME, 2),
           resp_top1 = Some (''B'', 1 / 2),
           resp_topk = Some [(''B'', 1 / 2), (''A'', 1 / 2)], resp_prediction = None \<rparr>"
proof -
  let ?p = "[1 / 2, 1 / 2 :: real]"
  let ?n = "[''A'', ''B'']"
  let ?row = "[\<lparr> combined_text = ''tesco groceries'', merchant_text = ''tesco'', amount = 43,
            hour = Some 9, day_of_week = Some 6, is_weekend = 1 \<rparr>]"
  have pr: "(\<lambda>X. Inr (map (\<lambda>row. ?p) X)) ?row = Inr (?p # [])" by simp
  note lp = load_pipeline_saved [where path = "''model.pkl''" and labels = "?n" and fs = Map.empty
      and p = "PModel (demo_model ?n ?p)"]
  have t: "topk_items stable_argsort (get_class_names (PModel (demo_model ?n ?p))) ?p 2 =
             Inr ((''B'', 1 / 2) # [(''A'', 1 / 2)])"
    unfolding demo_model_facts by (rule tie_eval)
  have X': "app_build_feature_row lower_ascii ref_pandas ''Tesco'' ''groceries'' 43
              DEFAULT_ISO_DATETIME = Inr ?row"
    unfolding app_build_feature_row_eq by (rule default_row)
  note tie_eval predict_main_ranked [OF lp demo_model_facts(2) default_row pr t]
    app_predict_ranked [OF demo_model_facts(2) X' pr t [unfolded demo_model_facts]]
  then show ?thesis by (intro conjI)
qed

section \<open>The artifact round trip\<close>

text \<open>
  Claim C4, as the code has it. \<^verbatim>\<open>save_artifacts\<close> writes one dictionary holding the
  pipeline and the label list. Loading accepts that dictionary or a bare pipeline object
  and returns the very pipeline that was written. The stored label list is never read:
  the class order comes from the classifier's own \<^verbatim>\<open>classes_\<close> in every case, so the
  pair of pipeline and class order is the same for the container and for the bare
  pipeline, and the answer of \<^verbatim>\<open>main\<close> after loading is the same for both and does not
  depend on the label list that was saved.
\<close>

theorem load_returns_saved_pipeline_and_classifier_order:
  "save_artifacts p labels model_path fs model_path =
     Some (PDict [(''pipeline'', p), (''labels'', PLabels labels)]) \<and>
   load_pipeline model_path (save_artifacts p labels model_path fs) = Inr p \<and>
   load_pipeline model_path (fs(model_path \<mapsto> PModel m)) = Inr (PModel m) \<and>
   load_model model_path (save_artifacts (PModel m) labels model_path fs) =
     Inr (PModel m,
          case (case named_steps m of Some steps \<Rightarrow> map_of steps ''classifier'' | None \<Rightarrow> None) of
            Some clf \<Rightarrow> clf_classes clf
          | None \<Rightarrow> own_classes m) \<and>
   load_model model_path (fs(model_path \<mapsto> PModel m)) =
     load_model model_path (save_artifacts (PModel m) labels model_path fs) \<and>
   predict_main argsort lower pd (save_artifacts (PModel m) labels model_path fs)
       mer des amt stamp k model_path =
     predict_main argsort lower pd (fs(model_path \<mapsto> PModel m)) mer des amt stamp k model_path \<and>
   predict_main argsort lower pd (save_artifacts (PModel m) labels model_path fs)
       mer des amt stamp k model_path =
     predict_main argsort lower pd (save_artifacts (PModel m) labels' model_path fs)
       mer des amt stamp k model_path"
proof (intro conjI)
  show "save_artifacts p labels model_path fs model_path =
     Some (PDict [(''pipeline'', p), (''labels'', PLabels labels)])"
    by (simp add: save_artifacts_def)
  show "load_pipeline model_path (save_artifacts p labels model_path fs) = Inr p"
    by (rule load_pipeline_saved)
  show "load_pipeline model_path (fs(model_path \<mapsto> PModel m)) = Inr (PModel m)"
    by (rule load_pipeline_bare)
  show "load_model model_path (save_artifacts (PModel m) labels model_path fs) =
     Inr (PModel m,
          case (case named_steps m of Some steps \<Rightarrow> map_of steps ''classifier'' | None \<Rightarrow> None) of
            Some clf \<Rightarrow> clf_classes clf
          | None \<Rightarrow> own_classes m)"
    unfolding load_model_saved by (rule load_model_bare)
  show "load_model model_path (fs(model_path \<mapsto> PModel m)) =
     load_model model_path (save_artifacts (PModel m) labels model_path fs)"
    by (simp only: load_model_saved)
  show "predict_main argsort lower pd (save_artifacts (PModel m) labels model_path fs)
       mer des amt stamp k model_path =
     predict_main argsort lower pd (fs(model_path \<mapsto> PModel m)) mer des amt stamp k model_path"
    unfolding predict_main_def load_pipeline_saved load_pipeline_bare ..
  show "predict_main argsort lower pd (save_artifacts (PModel m) labels model_path fs)
       mer des amt stamp k model_path =
     predict_main argsort lower pd (save_artifacts (PModel m) labels' model_path fs)
       mer des amt stamp k model_path"
    unfolding predict_main_def load_pipeline_saved ..
qed

text \<open>
  Claim C4 as stated fails where the saved label list is not the classifier's own class
  order. train.py saves the catalog's order with a classifier whose classes are sorted:
  loading returns the sorted order, not the saved one. And a container that holds a label
  list and a model without class names loads without names: the answer carries class
  indices, although the label list is in the file.
\<close>

theorem saved_label_list_is_not_read_back:
  "load_model ''model.pkl''
     (save_artifacts (PModel (demo_model fitted_classes demo_proba)) (categories SETTINGS)
        ''model.pkl'' Map.empty) =
     Inr (PModel (demo_model fitted_classes demo_proba), Some fitted_classes) \<and>
   fitted_classes \<noteq> categories SETTINGS \<and>
   load_model ''model.pkl''
     (save_artifacts (PModel (demo_bare [1 / 10, 5 / 10, 4 / 10])) [''A'', ''B'', ''C'']
        ''model.pkl'' Map.empty) =
     Inr (PModel (demo_bare [1 / 10, 5 / 10, 4 / 10]), None) \<and>
   get_class_names (PModel (demo_bare [1 / 10, 5 / 10, 4 / 10])) = None \<and>
   predict_main stable_argsort lower_ascii ref_pandas
     (save_artifacts (PModel (demo_bare [1 / 10, 5 / 10, 4 / 10])) [''A'', ''B'', ''C'']
        ''model.pkl'' Map.empty)
     ''Tesco'' ''groceries'' 43 DEFAULT_ISO_DATETIME 2 ''model.pkl'' =
     Inr (Ranked (''Tesco'', ''groceries'', 43, DEFAULT_ISO_DATETIME)
            (''1'', 5 / 10) [(''1'', 5 / 10), (''2'', 4 / 10)])"
proof -
  let ?p = "[1 / 10, 5 / 10, 4 / 10 :: real]"
  let ?row = "[\<lparr> combined_text = ''tesco groceries'', merchant_text = ''tesco'', amount = 43,
            hour = Some 9, day_of_week = Some 6, is_weekend = 1 \<rparr>]"
  have a: "load_model ''model.pkl''
     (save_artifacts (PModel (demo_model fitted_classes demo_proba)) (categories SETTINGS)
        ''model.pkl'' Map.empty) =
     Inr (PModel (demo_model fitted_classes demo_proba), Some fitted_classes)"
    unfolding load_model_saved load_model_bare by (simp add: demo_model_def)
  have b: "load_model ''model.pkl''
     (save_artifacts (PModel (demo_bare ?p)) [''A'', ''B'', ''C''] ''model.pkl'' Map.empty) =
     Inr (PModel (demo_bare ?p), None)"
    unfolding load_model_saved load_model_bare by (simp add: demo_bare_def)
  have cn: "get_class_names (PModel (demo_bare ?p)) = None"
    by (simp add: get_class_names_def demo_bare_def)
  have pr: "(\<lambda>X. Inr (map (\<lambda>row. ?p) X)) ?row = Inr (?p # [])" by simp
  note lp = load_pipeline_saved [where path = "''model.pkl''" and labels = "[''A'', ''B'', ''C'']"
      and fs = Map.empty and p = "PModel (demo_bare ?p)"]
  have "topk_items stable_argsort None ?p 2 = Inr ((''1'', 5 / 10) # [(''2'', 4 / 10)])"
    by code_simp
  then have t: "topk_items stable_argsort (get_class_names (PModel (demo_bare ?p))) ?p 2 =
             Inr ((''1'', 5 / 10) # [(''2'', 4 / 10)])"
    unfolding cn .
  note a fitted_differs b cn predict_main_ranked [OF lp demo_bare_facts(3) default_row pr t]
  then show ?thesis by (intro conjI)
qed

end
